theory Spec2Isabelle
  imports Main "HOL-Library.Log_Nat"
begin

unbundle bit_operations_syntax

section \<open>SmartDAC: the command encoder of \<^verbatim>\<open>smartDac.py\<close>\<close>

text \<open>
  The script drives a DAC over I2C. Python integers are unbounded and are modelled by
  \<^typ>\<open>int\<close>: \<^verbatim>\<open>x << k\<close> is \<^term>\<open>push_bit k x\<close>, \<^verbatim>\<open>x >> k\<close> is
  \<^term>\<open>drop_bit k x\<close> (floor division, as in Python), \<^verbatim>\<open>&\<close> and \<^verbatim>\<open>|\<close> are
  \<^verbatim>\<open>AND\<close> and \<^verbatim>\<open>OR\<close> on \<^typ>\<open>int\<close> (two's complement, as in Python).
\<close>

subsection \<open>Registers and command words (lines 36-118)\<close>

definition regStatus :: int where "regStatus = 0xD0"
definition regConfig :: int where "regConfig = 0xD1"
definition regMedConfig :: int where "regMedConfig = 0xD2"
definition regTrigger :: int where "regTrigger = 0xD3"
definition regDAC :: int where "regDAC = 0x21"
definition regDAC_MarginH :: int where "regDAC_MarginH = 0x25"
definition regDAC_MarginL :: int where "regDAC_MarginL = 0x26"

definition cmdReset :: int where "cmdReset = 0x000A"
definition cmdPowerOn :: int where "cmdPowerOn = 0x0000"
definition cmdPowerOff :: int where "cmdPowerOff = 0x0010"
definition cmdPowerOff_10k :: int where "cmdPowerOff_10k = 0x0018"
definition cmdLock :: int where "cmdLock = 0x2000"
definition cmdUnlock :: int where "cmdUnlock = 0x5000"
definition cmdNVMProg :: int where "cmdNVMProg = 0x0010"
definition cmdNVMReload :: int where "cmdNVMReload = 0x0020"
definition cmdErase :: int where "cmdErase = 0x0000"
definition cmdFactory :: int where "cmdFactory = 0x0200"

definition medAlarmHP :: int where "medAlarmHP = 0x4"
definition medAlarmMP :: int where "medAlarmMP = 0x2"
definition medAlarmLP :: int where "medAlarmLP = 0x1"

definition cmdSawL :: int where "cmdSawL = 0x01"
definition cmdSawH :: int where "cmdSawH = 0x02"
definition cmdSquare :: int where "cmdSquare = 0x03"
definition cmdTriangle :: int where "cmdTriangle = 0x00"
definition cmdStartFunc :: int where "cmdStartFunc = 0x01"

definition DAC_addr :: int where "DAC_addr = 0x48"

subsection \<open>Python values returned by the table lookups\<close>

text \<open>
  A table entry of the script is a Python list whose element 0 is the register code and
  whose further elements all have one type (a rate, an LSB count, or duration labels).
  The lookups can also return a plain integer (\<^verbatim>\<open>slew_15 = 0x0F\<close>) or \<^verbatim>\<open>None\<close>
  (an \<^verbatim>\<open>if/elif\<close> ladder that falls through). Subscripting either of those raises
  \<^verbatim>\<open>TypeError\<close> in Python.
\<close>

datatype pyerror = TypeError | IndexError | ValueError | OverflowError | ZeroDivisionError

datatype 'a pyobj = PyList int "'a list" | PyInt int | PyNone

fun item0 :: "'a pyobj \<Rightarrow> pyerror + int" where
  "item0 (PyList c xs) = Inr c"
| "item0 (PyInt n) = Inl TypeError"
| "item0 PyNone = Inl TypeError"

text \<open>\<open>item x k\<close> is \<^verbatim>\<open>x[k]\<close> for \<open>k \<ge> 1\<close>; element 0 is read with \<^const>\<open>item0\<close>.\<close>

fun item :: "'a pyobj \<Rightarrow> nat \<Rightarrow> pyerror + 'a" where
  "item (PyList c xs) k = (if 0 < k \<and> k - 1 < length xs then Inr (xs ! (k - 1)) else Inl IndexError)"
| "item (PyInt n) k = Inl TypeError"
| "item PyNone k = Inl TypeError"

subsection \<open>Binary64 floating point\<close>

text \<open>
  A Python float is an IEEE 754 binary64 value: a finite value (kept as the exact
  rational it denotes; the sign of zero is not tracked), an infinity or NaN.
  Every arithmetic operation rounds its exact result to the nearest binary64 value,
  ties to the even significand.
\<close>

datatype pyfloat = Finite rat | PosInf | NegInf | NaN

definition round_half_even :: "rat \<Rightarrow> int" where
  "round_half_even x =
     (let n = \<lfloor>x\<rfloor>; r = x - of_int n
      in if r < 1 / 2 then n else if 1 / 2 < r then n + 1 else if even n then n else n + 1)"

text \<open>
  \<open>ilog2 x\<close> is \<open>\<lfloor>log\<^sub>2 \<bar>x\<bar>\<rfloor>\<close> for \<open>x \<noteq> 0\<close>, computed from bit lengths
  (\<open>floorlog 2 n\<close> is the number of bits of \<open>n\<close>).
\<close>

definition ilog2 :: "rat \<Rightarrow> int" where
  "ilog2 x =
     (if 1 \<le> \<bar>x\<bar> then int (floorlog 2 (nat \<lfloor>\<bar>x\<bar>\<rfloor>)) - 1
      else - int (floorlog 2 (nat (\<lceil>1 / \<bar>x\<bar>\<rceil> - 1))))"

text \<open>
  The spacing of binary64 values around \<open>x\<close>: 53 significant bits, and the spacing
  of the subnormal range below \<open>2\<^sup>-\<^sup>1\<^sup>0\<^sup>2\<^sup>2\<close>.
\<close>

definition quantum :: "rat \<Rightarrow> rat" where
  "quantum x = 2 powi (max (ilog2 x) (- 1022) - 52)"

text \<open>The value nearest to \<open>x\<close> on the grid of spacing \<open>quantum x\<close>, ties to even.\<close>

definition nearest64 :: "rat \<Rightarrow> rat" where
  "nearest64 x = of_int (round_half_even (x / quantum x)) * quantum x"

text \<open>Rounding to binary64: a result of magnitude \<open>2\<^sup>1\<^sup>0\<^sup>2\<^sup>4\<close> or more is an infinity.\<close>

definition round_binary64 :: "rat \<Rightarrow> pyfloat" where
  "round_binary64 x =
     (let y = nearest64 x
      in if 2 ^ 1024 \<le> y then PosInf
         else if y \<le> - (2 ^ 1024) then NegInf
         else Finite y)"

text \<open>A decimal literal such as \<^verbatim>\<open>25.6\<close> denotes the nearest binary64 value.\<close>

definition float_lit :: "rat \<Rightarrow> pyfloat" where
  "float_lit r = round_binary64 r"

text \<open>
  \<^verbatim>\<open>math.pow(10, k)\<close> calls the C library; its result is taken to be the correctly
  rounded power, which is what the library returns for the two calls of the script.
\<close>

definition math_pow :: "int \<Rightarrow> int \<Rightarrow> pyfloat" where
  "math_pow b k = round_binary64 (of_int b powi k)"

definition fsign :: "pyfloat \<Rightarrow> int" where
  "fsign x =
     (case x of Finite a \<Rightarrow> (if a < 0 then - 1 else if a = 0 then 0 else 1)
      | PosInf \<Rightarrow> 1 | NegInf \<Rightarrow> - 1 | NaN \<Rightarrow> 0)"

text \<open>Float multiplication \<^verbatim>\<open>x * y\<close>; it never raises.\<close>

definition float_mul :: "pyfloat \<Rightarrow> pyfloat \<Rightarrow> pyfloat" where
  "float_mul x y =
     (case (x, y) of
        (Finite a, Finite b) \<Rightarrow> round_binary64 (a * b)
      | _ \<Rightarrow> if x = NaN \<or> y = NaN \<or> fsign x * fsign y = 0 then NaN
             else if 0 < fsign x * fsign y then PosInf else NegInf)"

text \<open>Float division \<^verbatim>\<open>x / y\<close>; Python raises on a zero divisor before dividing.\<close>

definition float_truediv :: "pyfloat \<Rightarrow> pyfloat \<Rightarrow> pyerror + pyfloat" where
  "float_truediv x y =
     (if y = Finite 0 then Inl ZeroDivisionError
      else case (x, y) of
             (Finite a, Finite b) \<Rightarrow> Inr (round_binary64 (a / b))
           | (Finite a, _) \<Rightarrow> Inr (if y = NaN then NaN else Finite 0)
           | (_, Finite b) \<Rightarrow>
               Inr (if x = NaN then NaN else if 0 < fsign x * fsign y then PosInf else NegInf)
           | _ \<Rightarrow> Inr NaN)"

text \<open>An \<^verbatim>\<open>int\<close> operand of a float operation is converted first; too large raises.\<close>

definition float_of_int :: "int \<Rightarrow> pyerror + pyfloat" where
  "float_of_int n =
     (case round_binary64 (of_int n) of Finite y \<Rightarrow> Inr (Finite y) | _ \<Rightarrow> Inl OverflowError)"

text \<open>True division of two \<^verbatim>\<open>int\<close>s, \<^verbatim>\<open>a / b\<close>: the correctly rounded quotient.\<close>

definition int_truediv :: "int \<Rightarrow> int \<Rightarrow> pyerror + pyfloat" where
  "int_truediv a b =
     (if b = 0 then Inl ZeroDivisionError
      else case round_binary64 (of_int a / of_int b) of
             Finite y \<Rightarrow> Inr (Finite y)
           | _ \<Rightarrow> Inl OverflowError)"

text \<open>\<^verbatim>\<open>round(x)\<close> of a float: an \<^verbatim>\<open>int\<close>, ties to even.\<close>

definition py_round :: "pyfloat \<Rightarrow> pyerror + int" where
  "py_round x =
     (case x of Finite a \<Rightarrow> Inr (round_half_even a)
      | PosInf \<Rightarrow> Inl OverflowError | NegInf \<Rightarrow> Inl OverflowError
      | NaN \<Rightarrow> Inl ValueError)"

definition err_bind :: "pyerror + 'a \<Rightarrow> ('a \<Rightarrow> pyerror + 'b) \<Rightarrow> pyerror + 'b" where
  "err_bind r f = (case r of Inl e \<Rightarrow> Inl e | Inr x \<Rightarrow> f x)"

subsection \<open>Unit conversion and lookup tables\<close>

text \<open>\<^verbatim>\<open>DAC_CODE = val * 1023.0/5\<close>, \<^verbatim>\<open>round\<close>, \<^verbatim>\<open><< 2\<close>. The int 5 converts to 5.0 exactly.\<close>

definition calcDACCode :: "pyfloat \<Rightarrow> pyerror + int" where
  "calcDACCode val =
     err_bind (float_truediv (float_mul val (Finite 1023)) (Finite 5)) (\<lambda>DAC_CODE.
     err_bind (py_round DAC_CODE) (\<lambda>DAC_CODE.
     Inr (push_bit 2 DAC_CODE)))"

text \<open>
  The expression of the \<^verbatim>\<open>v\<close> command handler (line 418) that turns the register
  value back into volts for display: \<^verbatim>\<open>((val >> 2) / 1023) * 5\<close>.
\<close>

definition dac_output :: "int \<Rightarrow> pyerror + pyfloat" where
  "dac_output val =
     err_bind (int_truediv (drop_bit 2 val) 1023) (\<lambda>q. Inr (float_mul q (Finite 5)))"

definition step_1 :: "int pyobj" where "step_1 = PyList 0x00 [1]"
definition step_2 :: "int pyobj" where "step_2 = PyList 0x01 [2]"
definition step_3 :: "int pyobj" where "step_3 = PyList 0x02 [3]"
definition step_4 :: "int pyobj" where "step_4 = PyList 0x03 [4]"
definition step_6 :: "int pyobj" where "step_6 = PyList 0x04 [6]"
definition step_8 :: "int pyobj" where "step_8 = PyList 0x05 [8]"
definition step_16 :: "int pyobj" where "step_16 = PyList 0x06 [16]"
definition step_32 :: "int pyobj" where "step_32 = PyList 0x07 [32]"

definition slew_0 :: "pyfloat pyobj" where
  "slew_0 = PyList 0x00 [float_mul (float_lit (256 / 10)) (math_pow 10 (- 6))]"
definition slew_1 :: "pyfloat pyobj" where
  "slew_1 = PyList 0x01 [float_mul (float_mul (float_lit (256 / 10)) (math_pow 10 (- 6))) (float_lit (125 / 100))]"
definition slew_2 :: "pyfloat pyobj" where
  "slew_2 = PyList 0x02 [float_mul (float_mul (float_lit (256 / 10)) (math_pow 10 (- 6))) (float_lit (15 / 10))]"
definition slew_3 :: "pyfloat pyobj" where
  "slew_3 = PyList 0x03 [float_mul (float_mul (float_lit (256 / 10)) (math_pow 10 (- 6))) (float_lit (175 / 100))]"
definition slew_4 :: "pyfloat pyobj" where
  "slew_4 = PyList 0x04 [float_mul (float_lit (2048 / 10)) (math_pow 10 (- 6))]"
definition slew_5 :: "pyfloat pyobj" where
  "slew_5 = PyList 0x05 [float_mul (float_mul (float_lit (2048 / 10)) (math_pow 10 (- 6))) (float_lit (125 / 100))]"
definition slew_6 :: "pyfloat pyobj" where
  "slew_6 = PyList 0x06 [float_mul (float_mul (float_lit (2048 / 10)) (math_pow 10 (- 6))) (float_lit (15 / 10))]"
definition slew_7 :: "pyfloat pyobj" where
  "slew_7 = PyList 0x07 [float_mul (float_mul (float_lit (2048 / 10)) (math_pow 10 (- 6))) (float_lit (175 / 100))]"
definition slew_8 :: "pyfloat pyobj" where
  "slew_8 = PyList 0x08 [float_mul (float_lit (16384 / 10000)) (math_pow 10 (- 3))]"
definition slew_9 :: "pyfloat pyobj" where
  "slew_9 = PyList 0x09 [float_mul (float_mul (float_lit (16384 / 10000)) (math_pow 10 (- 6))) (float_lit (125 / 100))]"
definition slew_10 :: "pyfloat pyobj" where
  "slew_10 = PyList 0x0A [float_mul (float_mul (float_lit (16384 / 10000)) (math_pow 10 (- 6))) (float_lit (15 / 10))]"
definition slew_11 :: "pyfloat pyobj" where
  "slew_11 = PyList 0x0B [float_mul (float_mul (float_lit (16384 / 10000)) (math_pow 10 (- 6))) (float_lit (175 / 100))]"
definition slew_12 :: "pyfloat pyobj" where
  "slew_12 = PyList 0x0C [float_mul (Finite 12) (math_pow 10 (- 6))]"
definition slew_13 :: "pyfloat pyobj" where
  "slew_13 = PyList 0x0D [float_mul (Finite 8) (math_pow 10 (- 6))]"
definition slew_14 :: "pyfloat pyobj" where
  "slew_14 = PyList 0x0E [float_mul (Finite 4) (math_pow 10 (- 6))]"
definition slew_15 :: "pyfloat pyobj" where "slew_15 = PyInt 0x0F"
definition slew_no :: "pyfloat pyobj" where "slew_no = PyInt 0x0F"

subsection \<open>Effects: the I2C bus, the clock and the console\<close>

text \<open>
  The SMBus transport, \<^verbatim>\<open>time.sleep\<close> and \<^verbatim>\<open>print\<close> are external. A run is
  modelled by the list of calls it makes to them, in order. The transport itself is
  taken to succeed on every call. A line printed with formatted numbers is recorded
  with the values it interpolates (mode, margins, slew code, step LSB count when
  printed, frequency); an all-text line is recorded as its text.
\<close>

datatype console =
    Text string
  | GeneratorLine string pyfloat pyfloat int "int option" pyfloat

datatype event =
    Write_i2c_block_data int int "int list"
  | Sleep rat
  | Print console

type_synonym 'a io = "event list \<Rightarrow> (pyerror + 'a) \<times> event list"

definition ret :: "'a \<Rightarrow> 'a io" where
  "ret x = (\<lambda>tr. (Inr x, tr))"

definition lift :: "pyerror + 'a \<Rightarrow> 'a io" where
  "lift r = (\<lambda>tr. (r, tr))"

definition emit :: "event \<Rightarrow> unit io" where
  "emit ev = (\<lambda>tr. (Inr (), tr @ [ev]))"

definition io_bind :: "'a io \<Rightarrow> ('a \<Rightarrow> 'b io) \<Rightarrow> 'b io" where
  "io_bind m f = (\<lambda>tr. case m tr of (Inl e, tr') \<Rightarrow> (Inl e, tr') | (Inr x, tr') \<Rightarrow> f x tr')"

definition io_seq :: "unit io \<Rightarrow> 'b io \<Rightarrow> 'b io" where
  "io_seq m k = io_bind m (\<lambda>_. k)"

definition write_i2c_block_data :: "int \<Rightarrow> int \<Rightarrow> int list \<Rightarrow> unit io" where
  "write_i2c_block_data addr reg data = emit (Write_i2c_block_data addr reg data)"

definition print :: "console \<Rightarrow> unit io" where
  "print c = emit (Print c)"

definition sleep :: "rat \<Rightarrow> unit io" where
  "sleep s = emit (Sleep s)"

subsection \<open>Class \<^verbatim>\<open>dac\<close>: simple operations\<close>

definition nibble :: "int \<Rightarrow> int list" where
  "nibble val = [drop_bit 8 val, val AND 0xFF]"

definition lock :: "unit io" where
  "lock = io_seq (write_i2c_block_data DAC_addr regTrigger (nibble cmdErase))
                 (write_i2c_block_data DAC_addr regConfig (nibble cmdLock))"

definition unLock :: "unit io" where
  "unLock = io_seq (write_i2c_block_data DAC_addr regTrigger (nibble cmdUnlock))
                   (write_i2c_block_data DAC_addr regConfig (nibble cmdErase))"

definition power :: "string \<Rightarrow> unit io" where
  "power val =
     (if val = ''on'' then write_i2c_block_data DAC_addr regConfig (nibble cmdPowerOn)
      else if val = ''off'' then write_i2c_block_data DAC_addr regConfig (nibble cmdPowerOff)
      else if val = ''10k'' then write_i2c_block_data DAC_addr regConfig (nibble cmdPowerOff_10k)
      else ret ())"

definition NVM :: "string \<Rightarrow> unit io" where
  "NVM mode =
     (if mode = ''prog'' then write_i2c_block_data DAC_addr regTrigger (nibble cmdNVMProg)
      else if mode = ''reload'' then write_i2c_block_data DAC_addr regTrigger (nibble cmdNVMReload)
      else ret ())"

definition funcGenOff :: "unit io" where
  "funcGenOff = write_i2c_block_data DAC_addr regTrigger (nibble cmdErase)"

subsection \<open>Medical alarm tables and \<^verbatim>\<open>medGen\<close>\<close>

definition medDeadTime_0 :: "string pyobj" where
  "medDeadTime_0 = PyList 0x00 [''16 sec'', ''2.60 sec'', ''2.55 sec'']"
definition medDeadTime_1 :: "string pyobj" where
  "medDeadTime_1 = PyList 0x01 [''16 sec'', ''3.06 sec'', ''2.96 sec'']"
definition medDeadTime_2 :: "string pyobj" where
  "medDeadTime_2 = PyList 0x02 [''16 sec'', ''3.52 sec'', ''3.38 sec'']"
definition medDeadTime_3 :: "string pyobj" where
  "medDeadTime_3 = PyList 0x03 [''16 sec'', ''4.00 sec'', ''3.80 sec'']"

definition medPulseOff_0 :: "string pyobj" where
  "medPulseOff_0 = PyList 0x00 [''40 msec'', ''40 msec'', ''15 msec'']"
definition medPulseOff_1 :: "string pyobj" where
  "medPulseOff_1 = PyList 0x01 [''60 msec'', ''60 msec'', ''36 msec'']"
definition medPulseOff_2 :: "string pyobj" where
  "medPulseOff_2 = PyList 0x02 [''80 msec'', ''80 msec'', ''58 msec'']"
definition medPulseOff_3 :: "string pyobj" where
  "medPulseOff_3 = PyList 0x03 [''100 msec'', ''100 msec'', ''80 msec'']"

definition medPulseOn_0 :: "string pyobj" where
  "medPulseOn_0 = PyList 0x00 [''80 msec'', ''130 msec'', ''130 msec'']"
definition medPulseOn_1 :: "string pyobj" where
  "medPulseOn_1 = PyList 0x01 [''103 msec'', ''153 msec'', ''153 msec'']"
definition medPulseOn_2 :: "string pyobj" where
  "medPulseOn_2 = PyList 0x02 [''126 msec'', ''176 msec'', ''176 msec'']"
definition medPulseOn_3 :: "string pyobj" where
  "medPulseOn_3 = PyList 0x03 [''150 msec'', ''200 msec'', ''200 msec'']"

definition calcDeadtime :: "int \<Rightarrow> string pyobj" where
  "calcDeadtime arg =
     (if arg = 0 then medDeadTime_0
      else if arg = 1 then medDeadTime_1
      else if arg = 2 then medDeadTime_2
      else if arg = 3 then medDeadTime_3
      else PyNone)"

definition calcPulse_off_time :: "int \<Rightarrow> string pyobj" where
  "calcPulse_off_time arg =
     (if arg = 0 then medPulseOff_0
      else if arg = 1 then medPulseOff_1
      else if arg = 2 then medPulseOff_2
      else if arg = 3 then medPulseOff_3
      else PyNone)"

definition calcPulse_on_time :: "int \<Rightarrow> string pyobj" where
  "calcPulse_on_time arg =
     (if arg = 0 then medPulseOn_0
      else if arg = 1 then medPulseOn_1
      else if arg = 2 then medPulseOn_2
      else if arg = 3 then medPulseOn_3
      else PyNone)"

text \<open>
  The command word of one branch of \<^verbatim>\<open>medGen\<close>:
  \<^verbatim>\<open>(prio << 8) | (dead_time[0] << 4) | (offTime[0] << 2) | (onTime[0] << 0)\<close>,
  the subscripts evaluated left to right.
\<close>

definition med_cmd :: "int \<Rightarrow> string pyobj \<Rightarrow> string pyobj \<Rightarrow> string pyobj \<Rightarrow> int io" where
  "med_cmd prio dead_time offTime onTime =
     io_bind (lift (item0 dead_time)) (\<lambda>d.
     io_bind (lift (item0 offTime)) (\<lambda>f.
     io_bind (lift (item0 onTime)) (\<lambda>n.
     ret (push_bit 8 prio OR push_bit 4 d OR push_bit 2 f OR push_bit 0 n))))"

text \<open>The line printed by one branch of \<^verbatim>\<open>medGen\<close>; \<open>k\<close> is the column read.\<close>

definition med_line :: "string \<Rightarrow> nat \<Rightarrow> string pyobj \<Rightarrow> string pyobj \<Rightarrow> string pyobj \<Rightarrow> unit io" where
  "med_line prio_name k dead_time offTime onTime =
     io_bind (lift (item dead_time k)) (\<lambda>d.
     io_bind (lift (item offTime k)) (\<lambda>f.
     io_bind (lift (item onTime k)) (\<lambda>n.
     print (Text (''Medical Signal: Priority '' @ prio_name @ '', Interburst Time: '' @ d
                  @ '', Pulse Off Time: '' @ f @ '', Pulse On Time: '' @ n)))))"

definition med_branch :: "int \<Rightarrow> string \<Rightarrow> nat \<Rightarrow> string pyobj \<Rightarrow> string pyobj \<Rightarrow> string pyobj \<Rightarrow> unit io" where
  "med_branch prio prio_name k dead_time offTime onTime =
     io_bind (med_cmd prio dead_time offTime onTime) (\<lambda>cmd.
     io_seq (write_i2c_block_data DAC_addr regMedConfig (nibble cmd))
            (med_line prio_name k dead_time offTime onTime))"

definition medGen :: "string \<Rightarrow> int \<Rightarrow> int \<Rightarrow> int \<Rightarrow> unit io" where
  "medGen mode deadtime on off =
     (let dead_time = calcDeadtime deadtime;
          onTime = calcPulse_on_time on;
          offTime = calcPulse_off_time off
      in if mode = ''l'' then med_branch medAlarmLP ''Low'' 1 dead_time offTime onTime
         else if mode = ''m'' then med_branch medAlarmMP ''Medium'' 2 dead_time offTime onTime
         else if mode = ''h'' then med_branch medAlarmHP ''High'' 3 dead_time offTime onTime
         else ret ())"

subsection \<open>\<^verbatim>\<open>slew_rate\<close>, \<^verbatim>\<open>code_step\<close>, \<^verbatim>\<open>setVoltage\<close> and \<^verbatim>\<open>funcGen\<close>\<close>

text \<open>
  The branch \<^verbatim>\<open>elif args == "no"\<close> of \<^verbatim>\<open>slew_rate\<close> compares the module-level
  \<^verbatim>\<open>args\<close>, the parsed \<^verbatim>\<open>argparse.Namespace\<close>, with a string: it is never equal.
\<close>

definition args_eq_no :: bool where
  "args_eq_no = False"

definition slew_rate :: "int \<Rightarrow> pyfloat pyobj io" where
  "slew_rate arg =
     (if arg = 0 then ret slew_0
      else if arg = 1 then ret slew_1
      else if arg = 2 then ret slew_2
      else if arg = 3 then ret slew_3
      else if arg = 4 then ret slew_4
      else if arg = 5 then ret slew_5
      else if arg = 6 then ret slew_6
      else if arg = 7 then ret slew_7
      else if arg = 8 then ret slew_8
      else if arg = 9 then ret slew_9
      else if arg = 10 then ret slew_10
      else if arg = 11 then ret slew_11
      else if arg = 12 then ret slew_12
      else if arg = 13 then ret slew_13
      else if arg = 14 then ret slew_14
      else if arg = 15 then ret slew_15
      else if args_eq_no then ret slew_no
      else io_seq (print (Text ''Please enter Slew Rate number from 0 to 15'')) (ret PyNone))"

definition code_step :: "int \<Rightarrow> int pyobj io" where
  "code_step arg =
     (if arg = 0 then ret step_1
      else if arg = 1 then ret step_2
      else if arg = 2 then ret step_3
      else if arg = 3 then ret step_4
      else if arg = 4 then ret step_6
      else if arg = 5 then ret step_8
      else if arg = 6 then ret step_16
      else if arg = 7 then ret step_32
      else io_seq (print (Text ''Please enter Code Step number from 0 to 7'')) (ret PyNone))"

definition setVoltage :: "pyfloat \<Rightarrow> int io" where
  "setVoltage voltage =
     io_bind (lift (calcDACCode voltage)) (\<lambda>DACVal.
     io_seq (write_i2c_block_data DAC_addr regDAC (nibble DACVal))
            (ret DACVal))"

text \<open>The four writes that every branch of \<^verbatim>\<open>funcGen\<close> issues, in the order of the source.\<close>

definition send_generator :: "int \<Rightarrow> int \<Rightarrow> int \<Rightarrow> unit io" where
  "send_generator cmd margH margL =
     io_seq (write_i2c_block_data DAC_addr regConfig (nibble cmd))
    (io_seq (write_i2c_block_data DAC_addr regDAC_MarginH (nibble margH))
    (io_seq (write_i2c_block_data DAC_addr regDAC_MarginL (nibble margL))
            (write_i2c_block_data DAC_addr regTrigger (nibble (push_bit 8 cmdStartFunc)))))"

text \<open>
  \<^verbatim>\<open>period * (((margH - margL) >> 2) + 1) / step[1]\<close>, where \<open>period\<close> is
  \<^verbatim>\<open>2.0 * slew[1]\<close> (triangle) or \<^verbatim>\<open>slew[1]\<close> (sawtooth); the operands are evaluated
  left to right and each \<^verbatim>\<open>int\<close> is converted when it meets the float.
\<close>

definition ramp_time :: "pyfloat \<Rightarrow> int \<Rightarrow> int \<Rightarrow> int pyobj \<Rightarrow> pyerror + pyfloat" where
  "ramp_time period margH margL step =
     err_bind (float_of_int (drop_bit 2 (margH - margL) + 1)) (\<lambda>n.
     err_bind (item step 1) (\<lambda>lsb.
     err_bind (float_of_int lsb) (\<lambda>d.
     float_truediv (float_mul period n) d)))"

definition funcGen :: "string \<Rightarrow> pyfloat \<Rightarrow> pyfloat \<Rightarrow> int \<Rightarrow> int \<Rightarrow> unit io" where
  "funcGen mode marginH marginL slew_rate_arg code_step_arg =
     io_seq funcGenOff
    (io_seq (sleep (1 / 2))
    (io_bind (lift (calcDACCode marginH)) (\<lambda>margH.
     io_bind (lift (calcDACCode marginL)) (\<lambda>margL.
     io_bind (slew_rate slew_rate_arg) (\<lambda>slew.
     io_bind (code_step code_step_arg) (\<lambda>step.
     if mode = ''square'' then
       io_bind (lift (item0 slew)) (\<lambda>s0.
       let cmd = push_bit 14 cmdSquare OR push_bit 5 s0 in
       io_bind (lift (item slew 1)) (\<lambda>s1.
       io_bind (lift (float_truediv (Finite 1) (float_mul (Finite 2) s1))) (\<lambda>freq.
       io_seq (send_generator cmd margH margL)
              (print (GeneratorLine mode marginH marginL s0 None freq)))))
     else if mode = ''triangle'' then
       io_bind (lift (item0 slew)) (\<lambda>s0.
       io_bind (lift (item0 step)) (\<lambda>t0.
       let cmd = (push_bit 14 cmdTriangle OR push_bit 5 s0) OR push_bit 9 t0 in
       io_bind (lift (item slew 1)) (\<lambda>s1.
       io_bind (lift (ramp_time (float_mul (Finite 2) s1) margH margL step)) (\<lambda>t.
       io_bind (lift (float_truediv (Finite 1) t)) (\<lambda>freq.
       io_seq (send_generator cmd margH margL)
      (io_bind (lift (item step 1)) (\<lambda>lsb.
              print (GeneratorLine mode marginH marginL s0 (Some lsb) freq))))))))
     else if mode = ''sawH'' then
       io_bind (lift (item0 slew)) (\<lambda>s0.
       io_bind (lift (item0 step)) (\<lambda>t0.
       let cmd = (push_bit 14 cmdSawH OR push_bit 5 s0) OR push_bit 9 t0 in
       io_bind (lift (item slew 1)) (\<lambda>s1.
       io_bind (lift (ramp_time s1 margH margL step)) (\<lambda>t.
       io_bind (lift (float_truediv (Finite 1) t)) (\<lambda>freq.
       io_seq (send_generator cmd margH margL)
      (io_bind (lift (item step 1)) (\<lambda>lsb.
              print (GeneratorLine mode marginH marginL s0 (Some lsb) freq))))))))
     else if mode = ''sawL'' then
       io_bind (lift (item0 slew)) (\<lambda>s0.
       io_bind (lift (item0 step)) (\<lambda>t0.
       let cmd = (push_bit 14 cmdSawL OR push_bit 5 s0) OR push_bit 9 t0 in
       io_bind (lift (item slew 1)) (\<lambda>s1.
       io_bind (lift (ramp_time s1 margH margL step)) (\<lambda>t.
       io_bind (lift (float_truediv (Finite 1) t)) (\<lambda>freq.
       io_seq (send_generator cmd margH margL)
      (io_bind (lift (item step 1)) (\<lambda>lsb.
              print (GeneratorLine mode marginH marginL s0 (Some lsb) freq))))))))
     else ret ()))))))"

subsection \<open>The command word and the frequency as the specification words them\<close>

text \<open>
  Section 4.5, step 4 of the specification: the config command is
  \<open>(spec_mode_code << 14) | (slew_code << 5)\<close> for square and
  \<open>(spec_mode_code << 14) | (step_code << 9) | (slew_code << 5)\<close> for the other modes.
\<close>

definition spec_mode_code :: "string \<Rightarrow> int" where
  "spec_mode_code mode =
     (if mode = ''square'' then cmdSquare
      else if mode = ''triangle'' then cmdTriangle
      else if mode = ''sawH'' then cmdSawH
      else cmdSawL)"

definition spec_packed_config :: "string \<Rightarrow> int \<Rightarrow> int \<Rightarrow> int" where
  "spec_packed_config mode slew_code step_code =
     (if mode = ''square'' then push_bit 14 (spec_mode_code mode) OR push_bit 5 slew_code
      else push_bit 14 (spec_mode_code mode) OR push_bit 9 step_code OR push_bit 5 slew_code)"

text \<open>
  The frequency formulas of the same step, evaluated in binary64 from left to right:
  \<open>1 / (2 * seconds_per_lsb)\<close> for square,
  \<open>1 / (2 * seconds_per_lsb * (((margH - margL) >> 2) + 1) / lsb_count)\<close> for triangle, and
  \<open>1 / (seconds_per_lsb * (((margH - margL) >> 2) + 1) / lsb_count)\<close> for both sawtooth modes.
\<close>

definition spec_waveform_frequency :: "string \<Rightarrow> pyfloat \<Rightarrow> int \<Rightarrow> int \<Rightarrow> int \<Rightarrow> pyerror + pyfloat" where
  "spec_waveform_frequency mode seconds_per_lsb margH margL lsb_count =
     (if mode = ''square'' then float_truediv (Finite 1) (float_mul (Finite 2) seconds_per_lsb)
      else
        err_bind (float_of_int (drop_bit 2 (margH - margL) + 1)) (\<lambda>n.
        err_bind (float_of_int lsb_count) (\<lambda>d.
        err_bind (float_truediv
                    (float_mul (if mode = ''triangle'' then float_mul (Finite 2) seconds_per_lsb
                                else seconds_per_lsb) n) d) (\<lambda>t.
        float_truediv (Finite 1) t))))"

text \<open>
  The same formulas in exact rational arithmetic, for a rate of \<open>seconds_per_lsb\<close> seconds.
\<close>

definition spec_exact_frequency :: "string \<Rightarrow> rat \<Rightarrow> int \<Rightarrow> int \<Rightarrow> int \<Rightarrow> rat" where
  "spec_exact_frequency mode seconds_per_lsb margH margL lsb_count =
     (if mode = ''square'' then 1 / (2 * seconds_per_lsb)
      else if mode = ''triangle'' then
        1 / (2 * seconds_per_lsb * of_int (drop_bit 2 (margH - margL) + 1) / of_int lsb_count)
      else 1 / (seconds_per_lsb * of_int (drop_bit 2 (margH - margL) + 1) / of_int lsb_count))"

section \<open>Properties\<close>

lemmas io_defs = ret_def lift_def emit_def io_bind_def io_seq_def
  write_i2c_block_data_def print_def sleep_def

subsection \<open>Rounding to the nearest integer and to binary64\<close>

lemma round_half_even_range:
  "\<lfloor>x\<rfloor> \<le> round_half_even x \<and> round_half_even x \<le> \<lfloor>x\<rfloor> + 1"
  by (simp add: round_half_even_def Let_def)

lemma round_half_even_close: "\<bar>of_int (round_half_even x) - x\<bar> \<le> 1 / 2"
proof -
  have "of_int \<lfloor>x\<rfloor> \<le> x" "x < of_int \<lfloor>x\<rfloor> + 1"
    by linarith+
  then show ?thesis
    by (auto simp: round_half_even_def Let_def)
qed

lemma round_half_even_of_int [simp]: "round_half_even (of_int n) = n"
  by (simp add: round_half_even_def)

lemma round_half_even_mono:
  assumes "x \<le> y"
  shows "round_half_even x \<le> round_half_even y"
proof (cases "\<lfloor>x\<rfloor> = \<lfloor>y\<rfloor>")
  case True
  with assms show ?thesis
    by (auto simp: round_half_even_def Let_def)
next
  case False
  with assms have "\<lfloor>x\<rfloor> + 1 \<le> \<lfloor>y\<rfloor>"
    using floor_mono [of x y] by linarith
  with round_half_even_range [of x] round_half_even_range [of y] show ?thesis
    by linarith
qed

lemma floorlog2_pos: "0 < m \<Longrightarrow> 0 < floorlog 2 m"
  using floorlog_eq_zero_iff [of 2 m] by auto

lemma floorlog2_rat_bounds:
  assumes "0 < m"
  shows "(2::rat) ^ (floorlog 2 m - 1) \<le> of_nat m" and "(of_nat m :: rat) + 1 \<le> 2 ^ floorlog 2 m"
proof -
  from floorlog_bounds [of m 2] assms
  have b: "2 ^ (floorlog 2 m - 1) \<le> m" "m + 1 \<le> 2 ^ floorlog 2 m"
    by simp_all
  have "rat_of_nat (2 ^ (floorlog 2 m - 1)) \<le> rat_of_nat m"
    using b(1) by (rule of_nat_mono)
  then show "(2::rat) ^ (floorlog 2 m - 1) \<le> of_nat m"
    by simp
  have "rat_of_nat (m + 1) \<le> rat_of_nat (2 ^ floorlog 2 m)"
    using b(2) by (rule of_nat_mono)
  then show "(of_nat m :: rat) + 1 \<le> 2 ^ floorlog 2 m"
    by simp
qed

lemma powi_nat_minus_one: "0 < f \<Longrightarrow> (2::rat) powi (int f - 1) = 2 ^ (f - 1)"
proof -
  assume "0 < f"
  then have "int f - 1 = int (f - 1)" by simp
  then show ?thesis by (simp only: power_int_of_nat)
qed

lemma powi_neg_nat: "(2::rat) powi (- int f) = 1 / 2 ^ f"
  by (simp add: power_int_minus field_simps)

lemma ilog2_ge1:
  assumes "1 \<le> \<bar>x\<bar>"
  shows "2 powi ilog2 x \<le> \<bar>x\<bar> \<and> \<bar>x\<bar> < 2 powi (ilog2 x + 1)"
proof -
  define m where "m = nat \<lfloor>\<bar>x\<bar>\<rfloor>"
  have fl: "1 \<le> \<lfloor>\<bar>x\<bar>\<rfloor>" using assms by (simp add: le_floor_iff)
  then have m: "0 < m" by (simp add: m_def)
  define f where "f = floorlog 2 m"
  have f: "0 < f" using m unfolding f_def by (rule floorlog2_pos)
  have e: "ilog2 x = int f - 1"
    using assms by (simp add: ilog2_def m_def f_def)
  have mi: "rat_of_nat m = rat_of_int \<lfloor>\<bar>x\<bar>\<rfloor>"
    using fl by (simp add: m_def)
  have ma: "rat_of_nat m \<le> \<bar>x\<bar>" "\<bar>x\<bar> < rat_of_nat m + 1"
    unfolding mi by linarith+
  from floorlog2_rat_bounds [OF m]
  have b: "(2::rat) ^ (f - 1) \<le> of_nat m" "(of_nat m :: rat) + 1 \<le> 2 ^ f"
    by (simp_all add: f_def)
  have p2: "(2::rat) powi (int f - 1 + 1) = 2 ^ f"
    by simp
  show ?thesis
    unfolding e p2 powi_nat_minus_one [OF f] using ma b by linarith
qed

lemma ilog2_lt1:
  assumes "x \<noteq> 0" "\<bar>x\<bar> < 1"
  shows "2 powi ilog2 x \<le> \<bar>x\<bar> \<and> \<bar>x\<bar> < 2 powi (ilog2 x + 1)"
proof -
  define a where "a = \<bar>x\<bar>"
  have a: "0 < a" "a < 1" using assms by (simp_all add: a_def)
  define c where "c = \<lceil>1 / a\<rceil>"
  have ia: "1 < 1 / a" using a by simp
  have ca: "1 / a \<le> rat_of_int c" "rat_of_int c - 1 < 1 / a"
    unfolding c_def by linarith+
  have "1 < rat_of_int c" using ia ca by linarith
  then have c2: "2 \<le> c" by linarith
  define k where "k = nat (c - 1)"
  have k: "0 < k" using c2 by (simp add: k_def)
  define f where "f = floorlog 2 k"
  have f: "0 < f" using k unfolding f_def by (rule floorlog2_pos)
  have e: "ilog2 x = - int f"
    using a by (simp add: ilog2_def a_def [symmetric] c_def k_def f_def)
  have kc: "rat_of_nat k = rat_of_int c - 1"
    using c2 by (simp add: k_def)
  from floorlog2_rat_bounds [OF k]
  have b: "(2::rat) ^ (f - 1) \<le> of_nat k" "(of_nat k :: rat) + 1 \<le> 2 ^ f"
    by (simp_all add: f_def)
  have u: "1 / a \<le> 2 ^ f" using ca kc b by linarith
  have l: "(2::rat) ^ (f - 1) < 1 / a" using ca kc b by linarith
  have p2: "(2::rat) powi (- int f + 1) = 1 / 2 ^ (f - 1)"
  proof -
    have "- int f + 1 = - int (f - 1)" using f by simp
    then show ?thesis by (simp only: powi_neg_nat)
  qed
  have "1 / 2 ^ f \<le> a"
  proof -
    have "1 \<le> 2 ^ f * a" using u a by (simp add: field_simps)
    then show ?thesis by (simp add: field_simps)
  qed
  moreover have "a < 1 / 2 ^ (f - 1)"
  proof -
    have "2 ^ (f - 1) * a < 1" using l a by (simp add: field_simps)
    then show ?thesis by (simp add: field_simps)
  qed
  ultimately show ?thesis
    unfolding e p2 powi_neg_nat a_def by simp
qed

lemma ilog2_bounds:
  assumes "x \<noteq> 0"
  shows "2 powi ilog2 x \<le> \<bar>x\<bar>" and "\<bar>x\<bar> < 2 powi (ilog2 x + 1)"
  using ilog2_ge1 [of x] ilog2_lt1 [of x] assms by (cases "1 \<le> \<bar>x\<bar>"; simp)+

lemma ilog2_le:
  assumes "x \<noteq> 0" "\<bar>x\<bar> < 2 powi (k + 1)"
  shows "ilog2 x \<le> k"
proof (rule ccontr)
  assume "\<not> ilog2 x \<le> k"
  then have "k + 1 \<le> ilog2 x" by simp
  then have "(2::rat) powi (k + 1) \<le> 2 powi ilog2 x"
    by (rule power_int_increasing) simp
  with ilog2_bounds(1) [OF assms(1)] assms(2) show False by linarith
qed

lemma ilog2_ge:
  assumes "2 powi k \<le> \<bar>x\<bar>"
  shows "k \<le> ilog2 x"
proof (rule ccontr)
  have "(0::rat) < 2 powi k" by simp
  with assms have "0 < \<bar>x\<bar>" by linarith
  then have x: "x \<noteq> 0" by simp
  assume "\<not> k \<le> ilog2 x"
  then have "ilog2 x + 1 \<le> k" by simp
  then have "(2::rat) powi (ilog2 x + 1) \<le> 2 powi k"
    by (rule power_int_increasing) simp
  with ilog2_bounds(2) [OF x] assms show False by linarith
qed

lemma quantum_pos: "0 < quantum x"
  by (simp add: quantum_def)

lemma nearest64_0 [simp]: "nearest64 0 = 0"
  by (simp add: nearest64_def round_half_even_def)

lemma nearest64_close: "\<bar>nearest64 x - x\<bar> \<le> quantum x / 2"
proof -
  define q where "q = quantum x"
  have q: "0 < q" by (simp add: q_def quantum_pos)
  have "nearest64 x - x = q * (of_int (round_half_even (x / q)) - x / q)"
    using q by (simp add: nearest64_def q_def [symmetric] field_simps)
  then have "\<bar>nearest64 x - x\<bar> = q * \<bar>of_int (round_half_even (x / q)) - x / q\<bar>"
    using q by (simp add: abs_mult)
  also have "\<dots> \<le> q * (1 / 2)"
    using q round_half_even_close [of "x / q"] by (intro mult_left_mono) simp_all
  finally show ?thesis by (simp add: q_def)
qed

lemma quantum_le:
  assumes "x \<noteq> 0" "\<bar>x\<bar> < 2 powi (k + 1)" "- 1022 \<le> k"
  shows "quantum x \<le> 2 powi (k - 52)"
proof -
  have "ilog2 x \<le> k" using assms(1,2) by (rule ilog2_le)
  with assms(3) have "max (ilog2 x) (- 1022) - 52 \<le> k - 52" by simp
  then show ?thesis
    unfolding quantum_def by (rule power_int_increasing) simp
qed

lemma nearest64_abs_error:
  assumes "\<bar>x\<bar> < 2 powi (k + 1)" "- 1022 \<le> k"
  shows "\<bar>nearest64 x - x\<bar> \<le> 2 powi (k - 52) / 2"
proof (cases "x = 0")
  case True
  then show ?thesis by simp
next
  case False
  from quantum_le [OF False assms] nearest64_close [of x] show ?thesis by linarith
qed

lemma round_binary64_small:
  assumes "\<bar>x\<bar> < 8192"
  shows "round_binary64 x = Finite (nearest64 x)" and "\<bar>nearest64 x - x\<bar> \<le> 1 / 2 ^ 41"
proof -
  have p: "(2::rat) powi (12 + 1) = 8192" "(2::rat) powi (12 - 52) / 2 = 1 / 2 ^ 41"
    by (simp_all add: power_int_minus)
  from nearest64_abs_error [of x 12] assms show e: "\<bar>nearest64 x - x\<bar> \<le> 1 / 2 ^ 41"
    unfolding p by simp
  have "(1::rat) / 2 ^ 41 \<le> 1" by simp
  with e assms have "\<bar>nearest64 x\<bar> < 8193" by linarith
  then have "nearest64 x < 2 ^ 1024" "- (2 ^ 1024) < nearest64 x"
    by (simp_all add: abs_less_iff)
  then show "round_binary64 x = Finite (nearest64 x)"
    by (simp add: round_binary64_def Let_def)
qed

lemma nearest64_le_grid:
  assumes "x \<le> of_int n * quantum x"
  shows "nearest64 x \<le> of_int n * quantum x"
proof -
  have "x / quantum x \<le> of_int n"
    using assms quantum_pos [of x] by (simp add: field_simps)
  from round_half_even_mono [OF this] have "round_half_even (x / quantum x) \<le> n"
    by simp
  then have "rat_of_int (round_half_even (x / quantum x)) \<le> of_int n"
    by simp
  then show ?thesis
    unfolding nearest64_def using quantum_pos [of x] by (intro mult_right_mono) simp_all
qed

lemma nearest64_ge_grid:
  assumes "of_int n * quantum x \<le> x"
  shows "of_int n * quantum x \<le> nearest64 x"
proof -
  have "of_int n \<le> x / quantum x"
    using assms quantum_pos [of x] by (simp add: field_simps)
  from round_half_even_mono [OF this] have "n \<le> round_half_even (x / quantum x)"
    by simp
  then have "rat_of_int n \<le> of_int (round_half_even (x / quantum x))"
    by simp
  then show ?thesis
    unfolding nearest64_def using quantum_pos [of x] by (intro mult_right_mono) simp_all
qed

lemma nearest64_nonneg: "0 \<le> x \<Longrightarrow> 0 \<le> nearest64 x"
  using nearest64_ge_grid [of 0 x] by simp

lemma nearest64_mono_nonneg:
  assumes "0 \<le> x" "x \<le> y"
  shows "nearest64 x \<le> nearest64 y"
proof (cases "x = 0")
  case True
  with assms nearest64_nonneg [of y] show ?thesis by simp
next
  case False
  with assms have x: "0 < x" and y: "0 < y" by simp_all
  define ex where "ex = max (ilog2 x) (- 1022)"
  define ey where "ey = max (ilog2 y) (- 1022)"
  have qx: "quantum x = 2 powi (ex - 52)" and qy: "quantum y = 2 powi (ey - 52)"
    by (simp_all add: quantum_def ex_def ey_def)
  have "2 powi ilog2 x \<le> \<bar>y\<bar>"
    using ilog2_bounds(1) [of x] x assms(2) by simp
  then have "ilog2 x \<le> ilog2 y" by (rule ilog2_ge)
  then have le: "ex \<le> ey" by (simp add: ex_def ey_def)
  show ?thesis
  proof (cases "ex = ey")
    case True
    then have q: "quantum y = quantum x" by (simp add: qx qy)
    have "x / quantum x \<le> y / quantum x"
      using assms(2) quantum_pos [of x] by (simp add: field_simps)
    from round_half_even_mono [OF this]
    have "rat_of_int (round_half_even (x / quantum x)) \<le> of_int (round_half_even (y / quantum x))"
      by simp
    then show ?thesis
      unfolding nearest64_def q using quantum_pos [of x] by (intro mult_right_mono) simp_all
  next
    case False
    with le have lt: "ex + 1 \<le> ey" by simp
    then have ey: "ey = ilog2 y" by (simp add: ex_def ey_def max_def split: if_splits)
    have "ilog2 x + 1 \<le> ex + 1" by (simp add: ex_def)
    then have "(2::rat) powi (ilog2 x + 1) \<le> 2 powi (ex + 1)"
      by (rule power_int_increasing) simp
    with ilog2_bounds(2) [of x] x have ux: "x \<le> 2 powi (ex + 1)" by simp
    have gx: "(2::rat) powi (ex + 1) = of_int (2 ^ 53) * quantum x"
    proof -
      have "(2::rat) powi (ex + 1) = 2 powi (53 + (ex - 52))"
        by (rule arg_cong [where f = "\<lambda>k. 2 powi k"]) simp
      also have "\<dots> = 2 powi 53 * 2 powi (ex - 52)"
        by (rule power_int_add) simp
      finally show ?thesis by (simp add: qx)
    qed
    have a: "nearest64 x \<le> 2 powi (ex + 1)"
      using nearest64_le_grid [of x "2 ^ 53"] ux unfolding gx by simp
    have gy: "(2::rat) powi ey = of_int (2 ^ 52) * quantum y"
    proof -
      have "(2::rat) powi ey = 2 powi (52 + (ey - 52))"
        by (rule arg_cong [where f = "\<lambda>k. 2 powi k"]) simp
      also have "\<dots> = 2 powi 52 * 2 powi (ey - 52)"
        by (rule power_int_add) simp
      finally show ?thesis by (simp add: qy)
    qed
    have "2 powi ey \<le> y"
      using ilog2_bounds(1) [of y] y by (simp add: ey)
    then have b: "2 powi ey \<le> nearest64 y"
      using nearest64_ge_grid [of "2 ^ 52" y] unfolding gy by simp
    have "(2::rat) powi (ex + 1) \<le> 2 powi ey"
      using lt by (rule power_int_increasing) simp
    with a b show ?thesis by linarith
  qed
qed

subsection \<open>Evaluation of the float operations on numerals\<close>

lemma floor_rat_numeral_div [simp]:
  "\<lfloor>(numeral a :: rat) / numeral b\<rfloor> = numeral a div numeral b"
  using floor_divide_of_int_eq [of "numeral a" "numeral b", where ?'a = rat] by simp

lemma ceiling_rat_numeral_div [simp]:
  "\<lceil>(numeral a :: rat) / numeral b\<rceil> = - (- numeral a div numeral b)"
  using floor_divide_of_int_eq [of "- numeral a" "numeral b", where ?'a = rat]
  by (simp add: ceiling_def)

lemmas fl_eval = round_binary64_def nearest64_def quantum_def ilog2_def Let_def
  round_half_even_def compute_floorlog power_int_minus float_lit_def math_pow_def float_mul_def

lemmas reg_defs = DAC_addr_def regConfig_def regMedConfig_def regTrigger_def regDAC_def
  regDAC_MarginH_def regDAC_MarginL_def

lemma float_lit_3_3: "float_lit (33 / 10) = Finite (3715469692580659 / 1125899906842624)"
  by (simp add: fl_eval)

lemma calcDACCode_3_3: "calcDACCode (float_lit (33 / 10)) = Inr 2700"
  unfolding float_lit_3_3 calcDACCode_def err_bind_def float_truediv_def
  by (simp add: fl_eval py_round_def)

lemma calcDACCode_0: "calcDACCode (Finite 0) = Inr 0"
  unfolding calcDACCode_def err_bind_def float_truediv_def
  by (simp add: fl_eval py_round_def)

lemma calcDACCode_5: "calcDACCode (Finite 5) = Inr 4092"
  unfolding calcDACCode_def err_bind_def float_truediv_def
  by (simp add: fl_eval py_round_def)

lemma math_pow_m6: "math_pow 10 (- 6) = Finite (4722366482869645 / 4722366482869645213696)"
  by (simp add: fl_eval)

lemma math_pow_m3: "math_pow 10 (- 3) = Finite (1152921504606847 / 1152921504606846976)"
  by (simp add: fl_eval)

subsection \<open>The lookup tables\<close>

lemma float_lit_values:
  "float_lit (256 / 10) = Finite (3602879701896397 / 140737488355328)"
  "float_lit (2048 / 10) = Finite (3602879701896397 / 17592186044416)"
  "float_lit (16384 / 10000) = Finite (7378697629483821 / 4503599627370496)"
  "float_lit (125 / 100) = Finite (5 / 4)"
  "float_lit (15 / 10) = Finite (3 / 2)"
  "float_lit (175 / 100) = Finite (7 / 4)"
  by (simp_all add: fl_eval)

lemma slew_values:
  "slew_0 = PyList 0 [Finite (944473296573929 / 36893488147419103232)]"
  "slew_1 = PyList 1 [Finite (4722366482869645 / 147573952589676412928)]"
  "slew_2 = PyList 2 [Finite (2833419889721787 / 73786976294838206464)]"
  "slew_3 = PyList 3 [Finite (6611313076017503 / 147573952589676412928)]"
  "slew_4 = PyList 4 [Finite (944473296573929 / 4611686018427387904)]"
  "slew_5 = PyList 5 [Finite (4722366482869645 / 18446744073709551616)]"
  "slew_6 = PyList 6 [Finite (2833419889721787 / 9223372036854775808)]"
  "slew_7 = PyList 7 [Finite (6611313076017503 / 18446744073709551616)]"
  "slew_8 = PyList 8 [Finite (7555786372591433 / 4611686018427387904)]"
  "slew_9 = PyList 9 [Finite (4835703278458517 / 2361183241434822606848)]"
  "slew_10 = PyList 10 [Finite (1450710983537555 / 590295810358705651712)]"
  "slew_11 = PyList 11 [Finite (1692496147460481 / 590295810358705651712)]"
  "slew_12 = PyList 12 [Finite (1770887431076117 / 147573952589676412928)]"
  "slew_13 = PyList 13 [Finite (4722366482869645 / 590295810358705651712)]"
  "slew_14 = PyList 14 [Finite (4722366482869645 / 1180591620717411303424)]"
  unfolding slew_0_def slew_1_def slew_2_def slew_3_def slew_4_def slew_5_def slew_6_def slew_7_def
    slew_8_def slew_9_def slew_10_def slew_11_def slew_12_def slew_13_def slew_14_def
    float_lit_values math_pow_m6 math_pow_m3
  by (simp_all add: fl_eval)


lemma slew_rate_out:
  "i < 0 \<or> 15 < i \<Longrightarrow> slew_rate i tr
     = (Inr PyNone, tr @ [Print (Text ''Please enter Slew Rate number from 0 to 15'')])"
  by (auto simp: slew_rate_def args_eq_no_def io_defs)

lemma code_step_out:
  "i < 0 \<or> 7 < i \<Longrightarrow> code_step i tr
     = (Inr PyNone, tr @ [Print (Text ''Please enter Code Step number from 0 to 7'')])"
  by (auto simp: code_step_def io_defs)

lemma slew_rate_15: "slew_rate 15 tr = (Inr (PyInt 0x0F), tr)"
  by (simp add: slew_rate_def slew_15_def io_defs)

lemma slew_rate_values:
  "slew_rate 0 tr = (Inr (PyList 0 [Finite (944473296573929 / 36893488147419103232)]), tr)"
  "slew_rate 1 tr = (Inr (PyList 1 [Finite (4722366482869645 / 147573952589676412928)]), tr)"
  "slew_rate 2 tr = (Inr (PyList 2 [Finite (2833419889721787 / 73786976294838206464)]), tr)"
  "slew_rate 3 tr = (Inr (PyList 3 [Finite (6611313076017503 / 147573952589676412928)]), tr)"
  "slew_rate 4 tr = (Inr (PyList 4 [Finite (944473296573929 / 4611686018427387904)]), tr)"
  "slew_rate 5 tr = (Inr (PyList 5 [Finite (4722366482869645 / 18446744073709551616)]), tr)"
  "slew_rate 6 tr = (Inr (PyList 6 [Finite (2833419889721787 / 9223372036854775808)]), tr)"
  "slew_rate 7 tr = (Inr (PyList 7 [Finite (6611313076017503 / 18446744073709551616)]), tr)"
  "slew_rate 8 tr = (Inr (PyList 8 [Finite (7555786372591433 / 4611686018427387904)]), tr)"
  "slew_rate 9 tr = (Inr (PyList 9 [Finite (4835703278458517 / 2361183241434822606848)]), tr)"
  "slew_rate 10 tr = (Inr (PyList 10 [Finite (1450710983537555 / 590295810358705651712)]), tr)"
  "slew_rate 11 tr = (Inr (PyList 11 [Finite (1692496147460481 / 590295810358705651712)]), tr)"
  "slew_rate 12 tr = (Inr (PyList 12 [Finite (1770887431076117 / 147573952589676412928)]), tr)"
  "slew_rate 13 tr = (Inr (PyList 13 [Finite (4722366482869645 / 590295810358705651712)]), tr)"
  "slew_rate 14 tr = (Inr (PyList 14 [Finite (4722366482869645 / 1180591620717411303424)]), tr)"
  by (simp_all add: slew_rate_def ret_def slew_values)

lemma slew_rate_ok:
  assumes "0 \<le> i" "i \<le> 14"
  shows "\<exists>r. (\<forall>tr. slew_rate i tr = (Inr (PyList i [Finite r]), tr)) \<and> 1 / 10 ^ 6 \<le> r \<and> r \<le> 1 / 100"
proof -
  from assms have "i \<in> {0, 1, 2, 3, 4, 5, 6, 7, 8, 9, 10, 11, 12, 13, 14}"
    by (simp add: atLeastAtMost_iff [symmetric]) presburger
  then show ?thesis
    by (elim insertE emptyE) (hypsubst, intro exI conjI allI, rule slew_rate_values, simp, simp)+
qed

lemma code_step_ok:
  assumes "0 \<le> i" "i \<le> 7"
  shows "code_step i tr = (Inr (PyList i [[1, 2, 3, 4, 6, 8, 16, 32] ! nat i]), tr)"
proof -
  from assms have "i \<in> {0, 1, 2, 3, 4, 5, 6, 7}"
    by (simp add: atLeastAtMost_iff [symmetric]) presburger
  then show ?thesis
    by (elim insertE emptyE)
      (simp_all add: code_step_def ret_def step_1_def step_2_def step_3_def step_4_def
        step_6_def step_8_def step_16_def step_32_def)
qed


subsection \<open>Runs of \<^verbatim>\<open>funcGen\<close> that stop early\<close>

lemma code_step_run:
  "\<exists>cs out. (\<forall>tr. code_step i tr = (Inr cs, tr @ out))
     \<and> (out = [] \<or> out = [Print (Text ''Please enter Code Step number from 0 to 7'')])
     \<and> (i < 0 \<or> 7 < i \<longrightarrow> cs = PyNone)"
proof (cases "0 \<le> i \<and> i \<le> 7")
  case True
  then have "\<forall>tr. code_step i tr = (Inr (PyList i [[1, 2, 3, 4, 6, 8, 16, 32] ! nat i]), tr @ [])"
    by (simp add: code_step_ok)
  with True show ?thesis
    by (intro exI [of _ "PyList i [[1, 2, 3, 4, 6, 8, 16, 32] ! nat i]"] exI [of _ "[]"]) simp
next
  case False
  then have "\<forall>tr. code_step i tr
     = (Inr PyNone, tr @ [Print (Text ''Please enter Code Step number from 0 to 7'')])"
    by (intro allI code_step_out) linarith
  then show ?thesis
    by (intro exI [of _ PyNone] exI [of _ "[Print (Text ''Please enter Code Step number from 0 to 7'')]"]) simp
qed

lemma slew_rate_run:
  "\<exists>sl out. (\<forall>tr. slew_rate i tr = (Inr sl, tr @ out))
     \<and> (out = [] \<or> out = [Print (Text ''Please enter Slew Rate number from 0 to 15'')])
     \<and> (i < 0 \<or> 15 < i \<longrightarrow> sl = PyNone)"
proof (cases "0 \<le> i \<and> i \<le> 15")
  case True
  show ?thesis
  proof (cases "i = 15")
    case True
    then have "\<forall>tr. slew_rate i tr = (Inr (PyInt 0x0F), tr @ [])"
      by (simp add: slew_rate_15)
    with True show ?thesis by (intro exI [of _ "PyInt 0x0F"] exI [of _ "[]"]) simp
  next
    case False
    with True have i: "0 \<le> i" "i \<le> 14" by simp_all
    from slew_rate_ok [OF i] obtain r where "\<forall>tr. slew_rate i tr = (Inr (PyList i [Finite r]), tr)"
      by blast
    with i show ?thesis by (intro exI [of _ "PyList i [Finite r]"] exI [of _ "[]"]) simp
  qed
next
  case False
  then have "\<forall>tr. slew_rate i tr
     = (Inr PyNone, tr @ [Print (Text ''Please enter Slew Rate number from 0 to 15'')])"
    by (intro allI slew_rate_out) linarith
  then show ?thesis
    by (intro exI [of _ PyNone] exI [of _ "[Print (Text ''Please enter Slew Rate number from 0 to 15'')]"]) simp
qed

lemma item0_cases: "item0 x = Inl TypeError \<or> (\<exists>c. item0 x = Inr c)"
  by (cases x) auto

text \<open>The runs of \<^verbatim>\<open>funcGen\<close> that stop before the writes of a branch.\<close>

lemma funcGen_start_error:
  assumes "calcDACCode marginH = Inl e \<or> (\<exists>a. calcDACCode marginH = Inr a) \<and> calcDACCode marginL = Inl e"
  shows "funcGen mode marginH marginL sa ca tr
     = (Inl e, tr @ [Write_i2c_block_data DAC_addr regTrigger (nibble cmdErase), Sleep (1 / 2)])"
  using assms by (auto simp: funcGen_def io_defs funcGenOff_def)

lemma funcGen_no_entry:
  assumes mH: "calcDACCode marginH = Inr a" and mL: "calcDACCode marginL = Inr b"
    and sl: "\<forall>tr. slew_rate sa tr = (Inr sl, tr @ o1)"
    and cs: "\<forall>tr. code_step ca tr = (Inr cs, tr @ o2)"
    and bad: "item0 sl = Inl TypeError \<or> mode \<noteq> ''square'' \<and> item0 cs = Inl TypeError"
    and mode: "mode \<in> {''square'', ''triangle'', ''sawH'', ''sawL''}"
  shows "funcGen mode marginH marginL sa ca tr
     = (Inl TypeError, tr @ [Write_i2c_block_data DAC_addr regTrigger (nibble cmdErase), Sleep (1 / 2)] @ o1 @ o2)"
proof -
  from bad consider "item0 sl = Inl TypeError"
    | c where "item0 sl = Inr c" "mode \<noteq> ''square''" "item0 cs = Inl TypeError"
    using item0_cases [of sl] by auto
  then show ?thesis
  proof cases
    case 1
    with mode show ?thesis
      by (auto simp: funcGen_def io_defs funcGenOff_def mH mL sl cs)
  next
    case 2
    with mode show ?thesis
      by (auto simp: funcGen_def io_defs funcGenOff_def mH mL sl cs)
  qed
qed


lemma funcGen_other_mode:
  assumes mH: "calcDACCode marginH = Inr a" and mL: "calcDACCode marginL = Inr b"
    and sl: "\<forall>tr. slew_rate sa tr = (Inr sl, tr @ o1)"
    and cs: "\<forall>tr. code_step ca tr = (Inr cs, tr @ o2)"
    and mode: "mode \<notin> {''square'', ''triangle'', ''sawH'', ''sawL''}"
  shows "funcGen mode marginH marginL sa ca tr
     = (Inr (), tr @ [Write_i2c_block_data DAC_addr regTrigger (nibble cmdErase), Sleep (1 / 2)] @ o1 @ o2)"
  using mode by (simp add: funcGen_def io_defs funcGenOff_def mH mL sl cs)

lemma square_frequency_0:
  "float_truediv (Finite 1) (float_mul (Finite 2) (Finite (944473296573929 / 36893488147419103232)))
     = Inr (Finite (78125 / 4))"
  by (simp add: float_truediv_def fl_eval)


subsection \<open>Voltages and codes\<close>

lemma float_mul_small:
  assumes "\<bar>a * b\<bar> < 8192"
  shows "float_mul (Finite a) (Finite b) = Finite (nearest64 (a * b))"
  using round_binary64_small(1) [OF assms] by (simp add: float_mul_def)

lemma float_truediv_small:
  assumes "b \<noteq> 0" "\<bar>a / b\<bar> < 8192"
  shows "float_truediv (Finite a) (Finite b) = Inr (Finite (nearest64 (a / b)))"
  using round_binary64_small(1) [OF assms(2)] assms(1) by (simp add: float_truediv_def)

lemma int_truediv_small:
  assumes "b \<noteq> 0" "\<bar>rat_of_int a / of_int b\<bar> < 8192"
  shows "int_truediv a b = Inr (Finite (nearest64 (of_int a / of_int b)))"
  using round_binary64_small(1) [OF assms(2)] assms(1) by (simp add: int_truediv_def)

text \<open>The conversion of a voltage in \<open>[0, 5]\<close>: no operation overflows or raises.\<close>

lemma scaled_voltage:
  assumes "0 \<le> v" "v \<le> 5"
  defines "a \<equiv> nearest64 (v * 1023)"
  defines "b \<equiv> nearest64 (a / 5)"
  shows "0 \<le> a" "\<bar>a - v * 1023\<bar> \<le> 1 / 2 ^ 41" "0 \<le> b" "\<bar>b - a / 5\<bar> \<le> 1 / 2 ^ 41"
    "float_mul (Finite v) (Finite 1023) = Finite a"
    "float_truediv (Finite a) (Finite 5) = Inr (Finite b)"
proof -
  have v: "\<bar>v * 1023\<bar> < 8192" using assms(1,2) by (simp add: abs_if)
  show a0: "0 \<le> a" unfolding a_def using assms(1) by (intro nearest64_nonneg) simp
  show a1: "\<bar>a - v * 1023\<bar> \<le> 1 / 2 ^ 41"
    unfolding a_def by (rule round_binary64_small(2) [OF v])
  have "(1::rat) / 2 ^ 41 \<le> 1" by simp
  with a0 a1 assms(2) have a2: "\<bar>a / 5\<bar> < 8192" by (simp add: abs_if split: if_splits)
  show "0 \<le> b" unfolding b_def using a0 by (intro nearest64_nonneg) simp
  show "\<bar>b - a / 5\<bar> \<le> 1 / 2 ^ 41"
    unfolding b_def by (rule round_binary64_small(2) [OF a2])
  show "float_mul (Finite v) (Finite 1023) = Finite a"
    unfolding a_def by (rule float_mul_small [OF v])
  show "float_truediv (Finite a) (Finite 5) = Inr (Finite b)"
    unfolding b_def using a2 by (intro float_truediv_small) simp_all
qed

lemma calcDACCode_volts:
  assumes "0 \<le> v" "v \<le> 5"
  shows "calcDACCode (Finite v)
     = Inr (push_bit 2 (round_half_even (nearest64 (nearest64 (v * 1023) / 5))))"
  using scaled_voltage(5,6) [OF assms]
  by (simp add: calcDACCode_def err_bind_def py_round_def)

lemma abs_chain_div5:
  fixes a b x e :: rat
  assumes "\<bar>a - x\<bar> \<le> e" "\<bar>b - a / 5\<bar> \<le> e"
  shows "\<bar>b - x / 5\<bar> \<le> e + e / 5"
  using assms by linarith

lemma code_of_volts:
  assumes "0 \<le> v" "v \<le> 5"
  defines "n \<equiv> round_half_even (nearest64 (nearest64 (v * 1023) / 5))"
  shows "0 \<le> n" "n \<le> 1023" "\<bar>rat_of_int n - v * 1023 / 5\<bar> \<le> 1 / 2 + 1 / 2 ^ 40"
proof -
  define a where "a = nearest64 (v * 1023)"
  define b where "b = nearest64 (a / 5)"
  note s = scaled_voltage(1-4) [OF assms(1,2), folded a_def, folded b_def]
  have n: "n = round_half_even b" by (simp add: n_def a_def b_def)
  have c: "\<bar>rat_of_int n - b\<bar> \<le> 1 / 2"
    unfolding n by (rule round_half_even_close)
  have e: "(1::rat) / 2 ^ 41 + 1 / 2 ^ 41 / 5 \<le> 1 / 2 ^ 40" by simp
  have ba: "\<bar>b - v * 1023 / 5\<bar> \<le> 1 / 2 ^ 41 + 1 / 2 ^ 41 / 5"
    using s(2,4) by (rule abs_chain_div5)
  with e have bv: "\<bar>b - v * 1023 / 5\<bar> \<le> 1 / 2 ^ 40" by linarith
  with c show "\<bar>rat_of_int n - v * 1023 / 5\<bar> \<le> 1 / 2 + 1 / 2 ^ 40" by linarith
  have "(1::rat) / 2 ^ 40 < 1 / 2" by simp
  with c bv assms(1,2) have "- 1 < rat_of_int n" "rat_of_int n < 1024"
    by linarith+
  then show "0 \<le> n" "n \<le> 1023" by linarith+
qed


lemma abs_chain_back:
  fixes n y w v d e :: rat
  assumes "\<bar>n - v * 1023 / 5\<bar> \<le> 1 / 2 + d" "\<bar>y - n / 1023\<bar> \<le> e" "\<bar>w - y * 5\<bar> \<le> e"
  shows "\<bar>w - v\<bar> \<le> 5 / 1023 * (1 / 2 + d) + 6 * e"
proof -
  have "w - v = (w - y * 5) + 5 * (y - n / 1023) + 5 / 1023 * (n - v * 1023 / 5)"
    by (simp add: field_simps)
  moreover have "\<bar>5 * (y - n / 1023)\<bar> \<le> 5 * e"
    using assms(2) by (simp add: abs_mult)
  moreover have "\<bar>5 / 1023 * (n - v * 1023 / 5)\<bar> \<le> 5 / 1023 * (1 / 2 + d)"
    using assms(1) by (simp only: abs_mult) simp
  ultimately show ?thesis using assms(3) by linarith
qed

lemma dac_output_code:
  assumes "0 \<le> n" "n \<le> 1023"
  defines "y \<equiv> nearest64 (of_int n / 1023)"
  defines "w \<equiv> nearest64 (y * 5)"
  shows "dac_output (push_bit 2 n) = Inr (Finite w)"
    "\<bar>y - of_int n / 1023\<bar> \<le> 1 / 2 ^ 41" "\<bar>w - y * 5\<bar> \<le> 1 / 2 ^ 41"
proof -
  have n: "0 \<le> rat_of_int n" "rat_of_int n \<le> 1023" using assms(1,2) by simp_all
  then have q: "\<bar>rat_of_int n / of_int 1023\<bar> < 8192" by (simp add: abs_if)
  from round_binary64_small(2) [OF q] show y: "\<bar>y - of_int n / 1023\<bar> \<le> 1 / 2 ^ 41"
    by (simp add: y_def)
  have "(1::rat) / 2 ^ 41 \<le> 1" by simp
  moreover have "0 \<le> rat_of_int n / 1023" "rat_of_int n / 1023 \<le> 1" using n by simp_all
  ultimately have "\<bar>y\<bar> \<le> 2" using y by linarith
  then have p: "\<bar>y * 5\<bar> < 8192" by (simp add: abs_mult)
  from round_binary64_small(2) [OF p] show "\<bar>w - y * 5\<bar> \<le> 1 / 2 ^ 41"
    by (simp add: w_def)
  have "drop_bit 2 (push_bit 2 n) = n" by (simp add: push_bit_eq_mult drop_bit_eq_div)
  moreover have "int_truediv n 1023 = Inr (Finite y)"
    using int_truediv_small [of 1023 n] q by (simp add: y_def)
  moreover have "float_mul (Finite y) (Finite 5) = Finite w"
    unfolding w_def by (rule float_mul_small [OF p])
  ultimately show "dac_output (push_bit 2 n) = Inr (Finite w)"
    by (simp add: dac_output_def err_bind_def)
qed

lemma dac_output_0: "dac_output 0 = Inr (Finite 0)"
  by (simp add: dac_output_def err_bind_def int_truediv_def float_mul_def round_binary64_def)

lemma dac_output_4092: "dac_output 4092 = Inr (Finite 5)"
  unfolding dac_output_def err_bind_def int_truediv_def
  by (simp add: drop_bit_eq_div fl_eval)

text \<open>Codes grow with the voltage.\<close>

lemma calcDACCode_mono:
  assumes "0 \<le> l" "l \<le> h" "h \<le> 5"
    and "calcDACCode (Finite l) = Inr a" "calcDACCode (Finite h) = Inr b"
  shows "a \<le> b"
proof -
  have l5: "l \<le> 5" and h0: "0 \<le> h" using assms(1-3) by simp_all
  have "nearest64 (l * 1023) \<le> nearest64 (h * 1023)"
    using assms(1,2) by (intro nearest64_mono_nonneg) simp_all
  moreover have "0 \<le> nearest64 (l * 1023)"
    using assms(1) by (intro nearest64_nonneg) simp
  ultimately have "nearest64 (nearest64 (l * 1023) / 5) \<le> nearest64 (nearest64 (h * 1023) / 5)"
    by (intro nearest64_mono_nonneg) simp_all
  then have "round_half_even (nearest64 (nearest64 (l * 1023) / 5))
      \<le> round_half_even (nearest64 (nearest64 (h * 1023) / 5))"
    by (rule round_half_even_mono)
  with assms(4,5) show ?thesis
    unfolding calcDACCode_volts [OF assms(1) l5] calcDACCode_volts [OF h0 assms(3)]
    by (simp add: push_bit_eq_mult)
qed

subsection \<open>Runs of \<^verbatim>\<open>funcGen\<close> that complete\<close>

lemma nearest64_interval:
  assumes "lo \<le> x" "x \<le> hi" "- 8192 < lo" "hi < 8192"
  shows "round_binary64 x = Finite (nearest64 x)"
    and "lo - 1 / 10 ^ 12 \<le> nearest64 x" and "nearest64 x \<le> hi + 1 / 10 ^ 12"
proof -
  have x: "\<bar>x\<bar> < 8192" using assms by linarith
  show "round_binary64 x = Finite (nearest64 x)"
    by (rule round_binary64_small(1) [OF x])
  have "(1::rat) / 2 ^ 41 \<le> 1 / 10 ^ 12" by simp
  with round_binary64_small(2) [OF x] have "\<bar>nearest64 x - x\<bar> \<le> 1 / 10 ^ 12"
    by (rule order_trans)
  with assms(1,2) show "lo - 1 / 10 ^ 12 \<le> nearest64 x" "nearest64 x \<le> hi + 1 / 10 ^ 12"
    by linarith+
qed

lemma period_bounds:
  assumes "1 / 10 ^ 6 \<le> r" "r \<le> 1 / 100"
  shows "float_mul (Finite 2) (Finite r) = Finite (nearest64 (2 * r))"
    and "1 / 10 ^ 6 \<le> nearest64 (2 * r)" and "nearest64 (2 * r) \<le> 1 / 32"
proof -
  have "2 / 10 ^ 6 \<le> 2 * r" "2 * r \<le> 2 / 100" using assms by simp_all
  note i = nearest64_interval [OF this]
  from i(1) show "float_mul (Finite 2) (Finite r) = Finite (nearest64 (2 * r))"
    by (simp add: float_mul_def)
  from i(2) show "1 / 10 ^ 6 \<le> nearest64 (2 * r)" by simp
  from i(3) show "nearest64 (2 * r) \<le> 1 / 32" by simp
qed

text \<open>Relative accuracy of the rounded operations on positive values.\<close>

lemma nearest64_rel:
  assumes "2 powi (- 1022) \<le> \<bar>x\<bar>"
  shows "\<bar>nearest64 x - x\<bar> \<le> \<bar>x\<bar> / 2 ^ 53"
proof -
  have e: "- 1022 \<le> ilog2 x" using assms by (rule ilog2_ge)
  have "(0::rat) < 2 powi (- 1022)" by simp
  with assms have "0 < \<bar>x\<bar>" by linarith
  then have x: "x \<noteq> 0" by simp
  have "quantum x = 2 powi (ilog2 x - 52)"
    using e by (simp add: quantum_def max_def)
  also have "\<dots> = 2 powi ilog2 x / 2 powi 52"
    by (rule power_int_diff) simp
  finally have q: "quantum x = 2 powi ilog2 x / 2 ^ 52" by simp
  have "quantum x / 2 = 2 powi ilog2 x / 2 ^ 53" by (simp add: q)
  also have "\<dots> \<le> \<bar>x\<bar> / 2 ^ 53"
    using ilog2_bounds(1) [OF x] by (simp add: divide_right_mono)
  finally show ?thesis using nearest64_close [of x] by linarith
qed

lemma abs_rel:
  fixes x y u :: rat
  assumes "\<bar>y - x\<bar> \<le> x * u"
  shows "x * (1 - u) \<le> y" and "y \<le> x * (1 + u)"
  using assms by (simp_all add: algebra_simps abs_le_iff)

lemma nearest64_pos:
  assumes "1 / 10 ^ 10 \<le> x" "x \<le> 10 ^ 10"
  shows "round_binary64 x = Finite (nearest64 x)"
    and "x * (1 - 1 / 2 ^ 53) \<le> nearest64 x" and "nearest64 x \<le> x * (1 + 1 / 2 ^ 53)"
proof -
  have x0: "0 < x" using assms(1) by (rule less_le_trans [rotated]) simp
  have "(2::rat) powi (- 1022) \<le> 1 / 10 ^ 10"
    by (simp add: power_int_minus field_simps)
  with assms(1) x0 have "2 powi (- 1022) \<le> \<bar>x\<bar>" by simp
  from nearest64_rel [OF this] x0 have r: "\<bar>nearest64 x - x\<bar> \<le> x * (1 / 2 ^ 53)" by simp
  from abs_rel [OF r] show l: "x * (1 - 1 / 2 ^ 53) \<le> nearest64 x"
    and u: "nearest64 x \<le> x * (1 + 1 / 2 ^ 53)" .
  have "x * (1 + 1 / 2 ^ 53) \<le> 10 ^ 10 * 2"
    using assms(2) x0 by (intro mult_mono) simp_all
  with u have "nearest64 x < 2 ^ 1024" by simp
  moreover have "0 \<le> nearest64 x" using x0 by (intro nearest64_nonneg) simp
  ultimately show "round_binary64 x = Finite (nearest64 x)"
    by (simp add: round_binary64_def Let_def)
qed

lemma rel_chain:
  fixes a b :: rat
  assumes ab: "0 < a" "a \<le> 1" "1 \<le> b"
    and pos: "0 < cs" "0 < N" "0 < L"
    and p: "cs * a \<le> p" "p \<le> cs * b"
    and nf: "N * a \<le> nf" "nf \<le> N * b"
    and x: "p * nf * a \<le> x" "x \<le> p * nf * b"
    and d: "L * a \<le> d" "d \<le> L * b"
    and t: "x / d * a \<le> t" "t \<le> x / d * b"
    and f: "1 / t * a \<le> f" "f \<le> 1 / t * b"
  shows "L / (cs * N) * (a ^ 2 / b ^ 4) \<le> f" and "f \<le> L / (cs * N) * (b ^ 2 / a ^ 4)"
proof -
  have b0: "0 < b" using ab(3) by simp
  have p0: "0 < p" using p(1) pos(1) ab(1) by (meson less_le_trans mult_pos_pos)
  have n0: "0 < nf" using nf(1) pos(2) ab(1) by (meson less_le_trans mult_pos_pos)
  have d0: "0 < d" using d(1) pos(3) ab(1) by (meson less_le_trans mult_pos_pos)
  have x0: "0 < x" using x(1) p0 n0 ab(1) by (meson less_le_trans mult_pos_pos)
  have t0: "0 < t" using t(1) x0 d0 ab(1) by (meson less_le_trans mult_pos_pos divide_pos_pos)
  have "p * nf \<le> (cs * b) * (N * b)"
    using p(2) nf(2) p0 n0 by (intro mult_mono) simp_all
  then have "p * nf * b \<le> (cs * b) * (N * b) * b"
    using b0 by (intro mult_right_mono) simp_all
  with x(2) have xu: "x \<le> cs * N * b ^ 3" by (simp add: power3_eq_cube algebra_simps)
  have "(cs * a) * (N * a) \<le> p * nf"
    using p(1) nf(1) pos ab(1) p0 by (intro mult_mono) simp_all
  then have "(cs * a) * (N * a) * a \<le> p * nf * a"
    using ab(1) by (intro mult_right_mono) simp_all
  with x(1) have xl: "cs * N * a ^ 3 \<le> x" by (simp add: power3_eq_cube algebra_simps)
  have la: "0 < L * a" using pos(3) ab(1) by simp
  have "x / d \<le> (cs * N * b ^ 3) / (L * a)"
    using xu x0 d(1) la by (intro frac_le) simp_all
  then have "x / d * b \<le> (cs * N * b ^ 3) / (L * a) * b"
    using b0 by (intro mult_right_mono) simp_all
  with t(2) have tu: "t \<le> (cs * N * b ^ 4) / (L * a)"
    by (simp add: power4_eq_xxxx power3_eq_cube algebra_simps)
  have "(cs * N * a ^ 3) / (L * b) \<le> x / d"
    using xl d(2) d0 x0 pos ab(1) by (intro frac_le) simp_all
  then have "(cs * N * a ^ 3) / (L * b) * a \<le> x / d * a"
    using ab(1) by (intro mult_right_mono) simp_all
  with t(1) have tl: "(cs * N * a ^ 4) / (L * b) \<le> t"
    by (simp add: power4_eq_xxxx power3_eq_cube algebra_simps)
  have tl0: "0 < (cs * N * a ^ 4) / (L * b)" using pos ab(1) b0 by simp
  have "1 / t \<le> 1 / ((cs * N * a ^ 4) / (L * b))"
    using tl tl0 by (intro frac_le) simp_all
  then have "1 / t * b \<le> 1 / ((cs * N * a ^ 4) / (L * b)) * b"
    using b0 by (intro mult_right_mono) simp_all
  with f(2) have "f \<le> 1 / ((cs * N * a ^ 4) / (L * b)) * b" by linarith
  also have "\<dots> = L / (cs * N) * (b ^ 2 / a ^ 4)"
    by (simp add: power2_eq_square)
  finally show "f \<le> L / (cs * N) * (b ^ 2 / a ^ 4)" .
  have "1 / ((cs * N * b ^ 4) / (L * a)) \<le> 1 / t"
    using tu t0 by (intro frac_le) simp_all
  then have lo: "1 / ((cs * N * b ^ 4) / (L * a)) * a \<le> 1 / t * a"
    using ab(1) by (intro mult_right_mono) simp_all
  have "L / (cs * N) * (a ^ 2 / b ^ 4) = 1 / ((cs * N * b ^ 4) / (L * a)) * a"
    by (simp add: power2_eq_square)
  also note lo
  also note f(1)
  finally show "L / (cs * N) * (a ^ 2 / b ^ 4) \<le> f" .
qed

lemma nearest64_pos_range:
  assumes "lo \<le> x" "x \<le> hi" "1 / 10 ^ 10 \<le> lo" "hi \<le> 10 ^ 10"
  shows "round_binary64 x = Finite (nearest64 x)"
    and "x * (1 - 1 / 2 ^ 53) \<le> nearest64 x" and "nearest64 x \<le> x * (1 + 1 / 2 ^ 53)"
    and "lo / 2 \<le> nearest64 x" and "nearest64 x \<le> hi * 2"
proof -
  have x: "1 / 10 ^ 10 \<le> x" "x \<le> 10 ^ 10" using assms by linarith+
  note n = nearest64_pos [OF x]
  show "round_binary64 x = Finite (nearest64 x)" by (rule n(1))
  show l: "x * (1 - 1 / 2 ^ 53) \<le> nearest64 x" by (rule n(2))
  show u: "nearest64 x \<le> x * (1 + 1 / 2 ^ 53)" by (rule n(3))
  have lo0: "0 \<le> lo" using assms(3) by (rule order_trans [rotated]) simp
  have "lo * (1 / 2) \<le> x * (1 - 1 / 2 ^ 53)"
    using assms(1) lo0 by (intro mult_mono) simp_all
  with l show "lo / 2 \<le> nearest64 x" by simp
  have "x * (1 + 1 / 2 ^ 53) \<le> hi * 2"
    using assms(1,2) lo0 by (intro mult_mono) simp_all
  with u show "nearest64 x \<le> hi * 2" by simp
qed

lemma rel_bounds_abs:
  fixes f F e lo hi :: rat
  assumes "0 < F" "F * lo \<le> f" "f \<le> F * hi" "1 - e \<le> lo" "hi \<le> 1 + e"
  shows "\<bar>f - F\<bar> \<le> F * e"
proof -
  have "F * (1 - e) \<le> F * lo" "F * hi \<le> F * (1 + e)"
    using assms(1,4,5) by (simp_all add: mult_left_mono)
  with assms(2,3) have "F * (1 - e) \<le> f" "f \<le> F * (1 + e)" by linarith+
  then show ?thesis by (simp add: algebra_simps abs_le_iff)
qed

lemma ulp_ratios:
  "(1 :: rat) - 1 / 2 ^ 50 \<le> (1 - 1 / 2 ^ 53) ^ 2 / (1 + 1 / 2 ^ 53) ^ 4"
  "(1 + 1 / 2 ^ 53) ^ 2 / (1 - 1 / 2 ^ 53) ^ 4 \<le> (1 + 1 / 2 ^ 50 :: rat)"
  "(1 :: rat) - 1 / 2 ^ 50 \<le> (1 - 1 / 2 ^ 53) / (1 + 1 / 2 ^ 53)"
  "(1 + 1 / 2 ^ 53) / (1 - 1 / 2 ^ 53) \<le> (1 + 1 / 2 ^ 50 :: rat)"
  by (simp_all add: power_divide)

lemma square_frequency:
  assumes s: "1 / 10 ^ 6 \<le> s" "s \<le> 1 / 100"
  shows "\<exists>f. float_truediv (Finite 1) (float_mul (Finite 2) (Finite s)) = Inr (Finite f)
     \<and> \<bar>f - 1 / (2 * s)\<bar> \<le> 1 / (2 * s) * (1 / 2 ^ 50)"
proof -
  let ?a = "1 - 1 / 2 ^ 53 :: rat" and ?b = "1 + 1 / 2 ^ 53 :: rat"
  have a: "0 < ?a" and b: "0 < ?b" by simp_all
  have s0: "0 < s" using s(1) by (rule less_le_trans [rotated]) simp
  define p where "p = nearest64 (2 * s)"
  have "2 / 10 ^ 6 \<le> 2 * s" "2 * s \<le> 2 / 100" using s by simp_all
  note P = nearest64_pos_range [OF this, folded p_def]
  have p0: "0 < p" using P(4) by simp
  have pm: "float_mul (Finite 2) (Finite s) = Finite p"
    using P(1) by (simp add: float_mul_def p_def)
  define f where "f = nearest64 (1 / p)"
  have "1 / (2 / 100 * 2) \<le> 1 / p"
    using P(5) p0 by (intro frac_le) simp_all
  moreover have "1 / p \<le> 1 / (2 / 10 ^ 6 / 2)"
    using P(4) by (intro frac_le) simp_all
  ultimately have "25 \<le> 1 / p" "1 / p \<le> 10 ^ 6" by simp_all
  note F = nearest64_pos_range [OF this, folded f_def]
  have fd: "float_truediv (Finite 1) (Finite p) = Inr (Finite f)"
    using F(1) p0 by (simp add: float_truediv_def f_def)
  have "1 / (2 * s * ?b) \<le> 1 / p"
    using P(3) p0 by (intro frac_le) simp_all
  then have "1 / (2 * s * ?b) * ?a \<le> 1 / p * ?a"
    by (intro mult_right_mono) simp_all
  with F(2) have lo: "1 / (2 * s) * (?a / ?b) \<le> f" by simp
  have "0 < 2 * s * ?a" using s0 by simp
  then have "1 / p \<le> 1 / (2 * s * ?a)"
    using P(2) by (intro frac_le) simp_all
  then have "1 / p * ?b \<le> 1 / (2 * s * ?a) * ?b"
    by (intro mult_right_mono) simp_all
  with F(3) have hi: "f \<le> 1 / (2 * s) * (?b / ?a)" by simp
  have "0 < 1 / (2 * s)" using s0 by simp
  from rel_bounds_abs [OF this lo hi ulp_ratios(3,4)] pm fd show ?thesis by auto
qed

lemma ramp_frequency:
  assumes s: "1 / 10 ^ 6 \<le> s" "s \<le> 1 / 100"
    and n: "1 \<le> n" "n \<le> 1024" and k: "1 \<le> k" "k \<le> 32"
    and c: "c = 1 \<and> p = s \<or> c = 2 \<and> p = nearest64 (2 * s)"
  shows "\<exists>nf d t f. float_of_int n = Inr (Finite nf) \<and> float_of_int k = Inr (Finite d)
      \<and> float_truediv (float_mul (Finite p) (Finite nf)) (Finite d) = Inr (Finite t)
      \<and> float_truediv (Finite 1) (Finite t) = Inr (Finite f)
      \<and> \<bar>f - of_int k / (c * s * of_int n)\<bar> \<le> of_int k / (c * s * of_int n) * (1 / 2 ^ 50)"
proof -
  let ?a = "1 - 1 / 2 ^ 53 :: rat" and ?b = "1 + 1 / 2 ^ 53 :: rat"
  have ab: "0 < ?a" "?a \<le> 1" "1 \<le> ?b" by simp_all
  have s0: "0 < s" using s(1) by (rule less_le_trans [rotated]) simp
  have c0: "0 < c" using c by auto
  have pr: "c * s * ?a \<le> p" "p \<le> c * s * ?b" and pa: "1 / 10 ^ 6 \<le> p" "p \<le> 1 / 25"
  proof -
    from c consider "c = 1" "p = s" | "c = 2" "p = nearest64 (2 * s)" by auto
    then have "(c * s * ?a \<le> p \<and> p \<le> c * s * ?b) \<and> 1 / 10 ^ 6 \<le> p \<and> p \<le> 1 / 25"
    proof cases
      case 1
      have "s * ?a \<le> s * 1" "s * 1 \<le> s * ?b"
        using s0 by (intro mult_left_mono; simp)+
      with 1 s show ?thesis by simp
    next
      case 2
      have "2 / 10 ^ 6 \<le> 2 * s" "2 * s \<le> 2 / 100" using s by simp_all
      note P = nearest64_pos_range [OF this]
      with 2 show ?thesis by simp
    qed
    then show "c * s * ?a \<le> p" "p \<le> c * s * ?b" "1 / 10 ^ 6 \<le> p" "p \<le> 1 / 25"
      by simp_all
  qed
  define nf where "nf = nearest64 (of_int n)"
  have "1 \<le> rat_of_int n" "rat_of_int n \<le> 1024" using n by simp_all
  note N = nearest64_pos_range [OF this, folded nf_def]
  have fn: "float_of_int n = Inr (Finite nf)"
    using N(1) by (simp add: float_of_int_def nf_def)
  define d where "d = nearest64 (of_int k)"
  have "1 \<le> rat_of_int k" "rat_of_int k \<le> 32" using k by simp_all
  note D = nearest64_pos_range [OF this, folded d_def]
  have fk: "float_of_int k = Inr (Finite d)"
    using D(1) by (simp add: float_of_int_def d_def)
  have d0: "0 < d" using D(4) by simp
  define x where "x = nearest64 (p * nf)"
  have "1 / 10 ^ 6 * (1 / 2) \<le> p * nf"
    using pa(1) N(4) by (intro mult_mono) simp_all
  moreover have "p * nf \<le> 1 / 25 * (1024 * 2)"
    using pa N(4,5) by (intro mult_mono) simp_all
  ultimately have "1 / (2 * 10 ^ 6) \<le> p * nf" "p * nf \<le> 100" by simp_all
  note X = nearest64_pos_range [OF this, folded x_def]
  have fx: "float_mul (Finite p) (Finite nf) = Finite x"
    using X(1) by (simp add: float_mul_def x_def)
  have x0: "0 < x" using X(4) by simp
  define t where "t = nearest64 (x / d)"
  have "1 / (2 * 10 ^ 6) / 2 / (32 * 2) \<le> x / d"
    using X(4) D(5) d0 by (intro frac_le) simp_all
  moreover have "x / d \<le> 100 * 2 / (1 / 2)"
    using X(5) D(4) x0 by (intro frac_le) simp_all
  ultimately have "1 / (256 * 10 ^ 6) \<le> x / d" "x / d \<le> 400" by simp_all
  note T = nearest64_pos_range [OF this, folded t_def]
  have ft: "float_truediv (Finite x) (Finite d) = Inr (Finite t)"
    using T(1) d0 by (simp add: float_truediv_def t_def)
  have t0: "0 < t" using T(4) by simp
  define f where "f = nearest64 (1 / t)"
  have "1 / (400 * 2) \<le> 1 / t"
    using T(5) t0 by (intro frac_le) simp_all
  moreover have "1 / t \<le> 1 / (1 / (256 * 10 ^ 6) / 2)"
    using T(4) by (intro frac_le) simp_all
  ultimately have "1 / 800 \<le> 1 / t" "1 / t \<le> 512 * 10 ^ 6" by simp_all
  note F = nearest64_pos_range [OF this, folded f_def]
  have ff: "float_truediv (Finite 1) (Finite t) = Inr (Finite f)"
    using F(1) t0 by (simp add: float_truediv_def f_def)
  have pos: "0 < c * s" "0 < rat_of_int n" "0 < rat_of_int k"
    using c0 s0 n k by simp_all
  note R = rel_chain [OF ab pos pr N(2,3) X(2,3) D(2,3) T(2,3) F(2,3)]
  have "0 < of_int k / (c * s * of_int n)" using pos by simp
  from rel_bounds_abs [OF this R ulp_ratios(1,2)] fn fk fx ft ff show ?thesis by auto
qed

lemma step_lsb_bounds:
  assumes "0 \<le> i" "i \<le> 7"
  shows "1 \<le> [1, 2, 3, 4, 6, 8, 16, 32 :: int] ! nat i" "[1, 2, 3, 4, 6, 8, 16, 32 :: int] ! nat i \<le> 32"
proof -
  from assms have "i \<in> {0, 1, 2, 3, 4, 5, 6, 7}"
    by (simp add: atLeastAtMost_iff [symmetric]) presburger
  then show "1 \<le> [1, 2, 3, 4, 6, 8, 16, 32 :: int] ! nat i" "[1, 2, 3, 4, 6, 8, 16, 32 :: int] ! nat i \<le> 32"
    by (elim insertE emptyE; simp)+
qed

lemma margin_codes:
  assumes "0 \<le> l" "l \<le> h" "h \<le> 5"
  shows "\<exists>margH margL. calcDACCode (Finite h) = Inr margH \<and> calcDACCode (Finite l) = Inr margL
     \<and> 1 \<le> drop_bit 2 (margH - margL) + 1 \<and> drop_bit 2 (margH - margL) + 1 \<le> 1024"
proof -
  have l5: "l \<le> 5" and h0: "0 \<le> h" using assms by simp_all
  define nH where "nH = round_half_even (nearest64 (nearest64 (h * 1023) / 5))"
  define nL where "nL = round_half_even (nearest64 (nearest64 (l * 1023) / 5))"
  note cH = calcDACCode_volts [OF h0 assms(3), folded nH_def]
  note cL = calcDACCode_volts [OF assms(1) l5, folded nL_def]
  note bH = code_of_volts(1,2) [OF h0 assms(3), folded nH_def]
  note bL = code_of_volts(1,2) [OF assms(1) l5, folded nL_def]
  from calcDACCode_mono [OF assms cL cH] have le: "nL \<le> nH"
    by (simp add: push_bit_eq_mult)
  have "push_bit 2 nH - push_bit 2 nL = (nH - nL) * 4"
    by (simp add: push_bit_eq_mult algebra_simps)
  then have d: "drop_bit 2 (push_bit 2 nH - push_bit 2 nL) = nH - nL"
    by (simp add: drop_bit_eq_div)
  have n1: "1 \<le> drop_bit 2 (push_bit 2 nH - push_bit 2 nL) + 1"
    unfolding d using le by simp
  have n2: "drop_bit 2 (push_bit 2 nH - push_bit 2 nL) + 1 \<le> 1024"
    unfolding d using bH bL by simp
  from cH cL n1 n2 show ?thesis by blast
qed

lemma funcGen_run:
  assumes mode: "mode \<in> {''square'', ''triangle'', ''sawH'', ''sawL''}"
    and slew: "0 \<le> slew" "slew \<le> 14" and step: "0 \<le> step" "step \<le> 7"
    and volts: "0 \<le> l" "l \<le> h" "h \<le> 5"
  shows "\<exists>margH margL s lsb f.
      calcDACCode (Finite h) = Inr margH \<and> calcDACCode (Finite l) = Inr margL
    \<and> (\<forall>t. slew_rate slew t = (Inr (PyList slew [Finite s]), t))
    \<and> (\<forall>t. code_step step t = (Inr (PyList step [lsb]), t))
    \<and> spec_waveform_frequency mode (Finite s) margH margL lsb = Inr (Finite f)
    \<and> \<bar>f - spec_exact_frequency mode s margH margL lsb\<bar>
        \<le> spec_exact_frequency mode s margH margL lsb * (1 / 2 ^ 50)
    \<and> funcGen mode (Finite h) (Finite l) slew step tr
      = (Inr (), tr @
          [Write_i2c_block_data DAC_addr regTrigger (nibble cmdErase),
           Sleep (1 / 2),
           Write_i2c_block_data DAC_addr regConfig (nibble (spec_packed_config mode slew step)),
           Write_i2c_block_data DAC_addr regDAC_MarginH (nibble margH),
           Write_i2c_block_data DAC_addr regDAC_MarginL (nibble margL),
           Write_i2c_block_data DAC_addr regTrigger (nibble (push_bit 8 cmdStartFunc)),
           Print (GeneratorLine mode (Finite h) (Finite l) slew
                    (if mode = ''square'' then None else Some lsb) (Finite f))])"
proof -
  from margin_codes [OF volts] obtain margH margL
    where mH: "calcDACCode (Finite h) = Inr margH" and mL: "calcDACCode (Finite l) = Inr margL"
      and n: "1 \<le> drop_bit 2 (margH - margL) + 1" "drop_bit 2 (margH - margL) + 1 \<le> 1024"
    by blast
  from slew_rate_ok [OF slew] obtain r
    where sl: "\<forall>t. slew_rate slew t = (Inr (PyList slew [Finite r]), t)"
      and r: "1 / 10 ^ 6 \<le> r" "r \<le> 1 / 100"
    by blast
  define lsb where "lsb = [1, 2, 3, 4, 6, 8, 16, 32 :: int] ! nat step"
  have cs: "\<forall>t. code_step step t = (Inr (PyList step [lsb]), t)"
    using code_step_ok [OF step] by (simp add: lsb_def)
  note k = step_lsb_bounds [OF step, folded lsb_def]
  note pb = period_bounds [OF r]
  define N where "N = drop_bit 2 (margH - margL) + 1"
  show ?thesis
  proof (cases "mode = ''square''")
    case True
    from square_frequency [OF r] obtain f
      where f: "float_truediv (Finite 1) (float_mul (Finite 2) (Finite r)) = Inr (Finite f)"
        and acc: "\<bar>f - 1 / (2 * r)\<bar> \<le> 1 / (2 * r) * (1 / 2 ^ 50)"
      by blast
    have w: "spec_waveform_frequency mode (Finite r) margH margL lsb = Inr (Finite f)"
      using True f by (simp add: spec_waveform_frequency_def)
    have e: "spec_exact_frequency mode r margH margL lsb = 1 / (2 * r)"
      using True by (simp add: spec_exact_frequency_def)
    have "funcGen mode (Finite h) (Finite l) slew step tr
      = (Inr (), tr @
          [Write_i2c_block_data DAC_addr regTrigger (nibble cmdErase),
           Sleep (1 / 2),
           Write_i2c_block_data DAC_addr regConfig (nibble (spec_packed_config mode slew step)),
           Write_i2c_block_data DAC_addr regDAC_MarginH (nibble margH),
           Write_i2c_block_data DAC_addr regDAC_MarginL (nibble margL),
           Write_i2c_block_data DAC_addr regTrigger (nibble (push_bit 8 cmdStartFunc)),
           Print (GeneratorLine mode (Finite h) (Finite l) slew None (Finite f))])"
      using True
      by (simp add: funcGen_def io_defs funcGenOff_def send_generator_def mH mL sl cs f
          spec_packed_config_def spec_mode_code_def)
    then have fg: "funcGen mode (Finite h) (Finite l) slew step tr
      = (Inr (), tr @
          [Write_i2c_block_data DAC_addr regTrigger (nibble cmdErase),
           Sleep (1 / 2),
           Write_i2c_block_data DAC_addr regConfig (nibble (spec_packed_config mode slew step)),
           Write_i2c_block_data DAC_addr regDAC_MarginH (nibble margH),
           Write_i2c_block_data DAC_addr regDAC_MarginL (nibble margL),
           Write_i2c_block_data DAC_addr regTrigger (nibble (push_bit 8 cmdStartFunc)),
           Print (GeneratorLine mode (Finite h) (Finite l) slew
                    (if mode = ''square'' then None else Some lsb) (Finite f))])"
      using True by simp
    have acc': "\<bar>f - spec_exact_frequency mode r margH margL lsb\<bar>
        \<le> spec_exact_frequency mode r margH margL lsb * (1 / 2 ^ 50)"
      unfolding e by (rule acc)
    from mH mL sl cs w acc' fg show ?thesis by blast
  next
    case False
    define c :: rat where "c = (if mode = ''triangle'' then 2 else 1)"
    define p where "p = (if mode = ''triangle'' then nearest64 (2 * r) else r)"
    have cp: "c = 1 \<and> p = r \<or> c = 2 \<and> p = nearest64 (2 * r)"
      by (simp add: c_def p_def)
    have period: "(if mode = ''triangle'' then float_mul (Finite 2) (Finite r) else Finite r) = Finite p"
      by (simp add: p_def pb(1))
    from ramp_frequency [OF r n k cp] obtain nf d t f
      where nf: "float_of_int (drop_bit 2 (margH - margL) + 1) = Inr (Finite nf)"
        and d: "float_of_int lsb = Inr (Finite d)"
        and t: "float_truediv (float_mul (Finite p) (Finite nf)) (Finite d) = Inr (Finite t)"
        and f: "float_truediv (Finite 1) (Finite t) = Inr (Finite f)"
        and acc: "\<bar>f - of_int lsb / (c * r * of_int (drop_bit 2 (margH - margL) + 1))\<bar>
            \<le> of_int lsb / (c * r * of_int (drop_bit 2 (margH - margL) + 1)) * (1 / 2 ^ 50)"
      by blast
    have w: "spec_waveform_frequency mode (Finite r) margH margL lsb = Inr (Finite f)"
      using False by (simp add: spec_waveform_frequency_def err_bind_def period nf d t f)
    have e: "spec_exact_frequency mode r margH margL lsb
        = of_int lsb / (c * r * of_int (drop_bit 2 (margH - margL) + 1))"
      using False by (simp add: spec_exact_frequency_def c_def)
    have rt: "ramp_time (Finite p) margH margL (PyList step [lsb]) = Inr (Finite t)"
      by (simp add: ramp_time_def err_bind_def nf d t)
    from mode False consider "mode = ''triangle''" | "mode = ''sawH''" | "mode = ''sawL''"
      by auto
    then have "funcGen mode (Finite h) (Finite l) slew step tr
      = (Inr (), tr @
          [Write_i2c_block_data DAC_addr regTrigger (nibble cmdErase),
           Sleep (1 / 2),
           Write_i2c_block_data DAC_addr regConfig (nibble (spec_packed_config mode slew step)),
           Write_i2c_block_data DAC_addr regDAC_MarginH (nibble margH),
           Write_i2c_block_data DAC_addr regDAC_MarginL (nibble margL),
           Write_i2c_block_data DAC_addr regTrigger (nibble (push_bit 8 cmdStartFunc)),
           Print (GeneratorLine mode (Finite h) (Finite l) slew (Some lsb) (Finite f))])"
    proof cases
      case 1
      with rt have "ramp_time (float_mul (Finite 2) (Finite r)) margH margL (PyList step [lsb]) = Inr (Finite t)"
        by (simp add: p_def pb(1))
      with 1 show ?thesis
        by (simp add: funcGen_def io_defs funcGenOff_def send_generator_def mH mL sl cs f
            spec_packed_config_def spec_mode_code_def ac_simps)
    next
      case 2
      with rt have "ramp_time (Finite r) margH margL (PyList step [lsb]) = Inr (Finite t)"
        by (simp add: p_def)
      with 2 show ?thesis
        by (simp add: funcGen_def io_defs funcGenOff_def send_generator_def mH mL sl cs f
            spec_packed_config_def spec_mode_code_def ac_simps)
    next
      case 3
      with rt have "ramp_time (Finite r) margH margL (PyList step [lsb]) = Inr (Finite t)"
        by (simp add: p_def)
      with 3 show ?thesis
        by (simp add: funcGen_def io_defs funcGenOff_def send_generator_def mH mL sl cs f
            spec_packed_config_def spec_mode_code_def ac_simps)
    qed
    then have fg: "funcGen mode (Finite h) (Finite l) slew step tr
      = (Inr (), tr @
          [Write_i2c_block_data DAC_addr regTrigger (nibble cmdErase),
           Sleep (1 / 2),
           Write_i2c_block_data DAC_addr regConfig (nibble (spec_packed_config mode slew step)),
           Write_i2c_block_data DAC_addr regDAC_MarginH (nibble margH),
           Write_i2c_block_data DAC_addr regDAC_MarginL (nibble margL),
           Write_i2c_block_data DAC_addr regTrigger (nibble (push_bit 8 cmdStartFunc)),
           Print (GeneratorLine mode (Finite h) (Finite l) slew
                    (if mode = ''square'' then None else Some lsb) (Finite f))])"
      using False by simp
    have acc': "\<bar>f - spec_exact_frequency mode r margH margL lsb\<bar>
        \<le> spec_exact_frequency mode r margH margL lsb * (1 / 2 ^ 50)"
      unfolding e by (rule acc)
    from mH mL sl cs w acc' fg show ?thesis by blast
  qed
qed

subsection \<open>Claims\<close>

text \<open>
  C8. \<^verbatim>\<open>lock()\<close> issues exactly two writes, in order: the erase command to the trigger
  register, then the lock command to the config register. \<^verbatim>\<open>unLock()\<close> issues exactly
  two writes, in order: the unlock command to the trigger register, then the erase
  command to the config register.
\<close>

theorem lock_unlock_writes:
  "lock tr = (Inr (), tr @ [Write_i2c_block_data DAC_addr regTrigger (nibble cmdErase),
                            Write_i2c_block_data DAC_addr regConfig (nibble cmdLock)])
   \<and> unLock tr = (Inr (), tr @ [Write_i2c_block_data DAC_addr regTrigger (nibble cmdUnlock),
                                Write_i2c_block_data DAC_addr regConfig (nibble cmdErase)])
   \<and> nibble cmdErase = [0x00, 0x00] \<and> nibble cmdLock = [0x20, 0x00]
   \<and> nibble cmdUnlock = [0x50, 0x00]
   \<and> regTrigger = 0xD3 \<and> regConfig = 0xD1"
  by (simp add: lock_def unLock_def io_defs nibble_def cmdErase_def cmdLock_def cmdUnlock_def
      regTrigger_def regConfig_def)

text \<open>
  C1 (as stated). For the input voltage 3.3, \<^verbatim>\<open>setVoltage\<close> would compute the code
  \<open>676 << 2 = 2704\<close> and write the bytes \<open>(0x0A, 0x90)\<close> to the DAC-value register.
  The run differs: \<open>3.3 * 1023 / 5 = 675.18\<close> rounds to 675.
\<close>

theorem setVoltage_3_3_counterexample:
  "setVoltage (float_lit (33 / 10)) []
     \<noteq> (Inr 2704, [Write_i2c_block_data DAC_addr regDAC [0x0A, 0x90]])"
  by (simp add: setVoltage_def io_defs calcDACCode_3_3)

text \<open>
  C1 (amended). For the input voltage 3.3, \<^verbatim>\<open>setVoltage\<close> computes the code
  \<open>round(3.3 * 1023 / 5) << 2 = 675 << 2 = 2700 (0x0A8C)\<close>, returns it, and writes exactly
  the two bytes \<open>(0x0A, 0x8C)\<close> to the DAC-value register \<open>0x21\<close>.
\<close>

theorem setVoltage_3_3:
  "setVoltage (float_lit (33 / 10)) tr
     = (Inr 2700, tr @ [Write_i2c_block_data DAC_addr regDAC [0x0A, 0x8C]])
   \<and> calcDACCode (float_lit (33 / 10)) = Inr (push_bit 2 675)
   \<and> (2700 :: int) = 0x0A8C \<and> regDAC = 0x21"
  by (simp add: setVoltage_def io_defs calcDACCode_3_3 nibble_def regDAC_def)

text \<open>
  C10. The power-off (high-Z) command word and the NVM-program command word are the same
  constant \<open>0x0010\<close>: \<^verbatim>\<open>power("off")\<close> and \<^verbatim>\<open>NVM("prog")\<close> send the same two
  bytes \<open>(0x00, 0x10)\<close>, the first to the config register, the second to the trigger
  register.
\<close>

theorem power_off_nvm_prog_same_payload:
  "cmdPowerOff = 0x0010 \<and> cmdNVMProg = 0x0010
   \<and> power ''off'' tr = (Inr (), tr @ [Write_i2c_block_data DAC_addr regConfig [0x00, 0x10]])
   \<and> NVM ''prog'' tr = (Inr (), tr @ [Write_i2c_block_data DAC_addr regTrigger [0x00, 0x10]])
   \<and> regConfig = 0xD1 \<and> regTrigger = 0xD3"
  by (simp add: power_def NVM_def io_defs nibble_def cmdPowerOff_def cmdNVMProg_def reg_defs)


lemma med_tables:
  assumes "i \<in> {0..3}" "k \<in> {1, 2, 3}"
  shows "item0 (calcDeadtime i) = Inr i" "\<exists>s. item (calcDeadtime i) k = Inr s"
    "item0 (calcPulse_off_time i) = Inr i" "\<exists>s. item (calcPulse_off_time i) k = Inr s"
    "item0 (calcPulse_on_time i) = Inr i" "\<exists>s. item (calcPulse_on_time i) k = Inr s"
proof -
  from assms(1) have "i = 0 \<or> i = 1 \<or> i = 2 \<or> i = 3" by auto
  with assms(2) show "item0 (calcDeadtime i) = Inr i" "\<exists>s. item (calcDeadtime i) k = Inr s"
    "item0 (calcPulse_off_time i) = Inr i" "\<exists>s. item (calcPulse_off_time i) k = Inr s"
    "item0 (calcPulse_on_time i) = Inr i" "\<exists>s. item (calcPulse_on_time i) k = Inr s"
    by (auto simp: calcDeadtime_def calcPulse_off_time_def calcPulse_on_time_def
        medDeadTime_0_def medDeadTime_1_def medDeadTime_2_def medDeadTime_3_def
        medPulseOff_0_def medPulseOff_1_def medPulseOff_2_def medPulseOff_3_def
        medPulseOn_0_def medPulseOn_1_def medPulseOn_2_def medPulseOn_3_def)
qed

lemma med_branch_run:
  assumes "d \<in> {0..3}" "n \<in> {0..3}" "f \<in> {0..3}" "k \<in> {1, 2, 3}"
  shows "\<exists>txt. med_branch p name k (calcDeadtime d) (calcPulse_off_time f) (calcPulse_on_time n) tr
     = (Inr (), tr @ [Write_i2c_block_data DAC_addr regMedConfig
                        (nibble (push_bit 8 p OR push_bit 4 d OR push_bit 2 f OR push_bit 0 n)),
                      Print (Text txt)])"
proof -
  from med_tables(2) [OF assms(1,4)] obtain s1 where s1: "item (calcDeadtime d) k = Inr s1" ..
  from med_tables(4) [OF assms(3,4)] obtain s2 where s2: "item (calcPulse_off_time f) k = Inr s2" ..
  from med_tables(6) [OF assms(2,4)] obtain s3 where s3: "item (calcPulse_on_time n) k = Inr s3" ..
  show ?thesis
    by (simp add: med_branch_def med_cmd_def med_line_def io_defs s1 s2 s3
        med_tables(1) [OF assms(1,4)] med_tables(3) [OF assms(3,4)] med_tables(5) [OF assms(2,4)])
qed

text \<open>
  C2. For every priority (\<open>l\<close>, \<open>m\<close>, \<open>h\<close> with codes 1, 2, 4) and every dead-time,
  on and off index in \<open>0..3\<close>, \<^verbatim>\<open>medGen\<close> issues one write, to the medical-config
  register, of the word \<open>(priority << 8) | (deadtime << 4) | (off << 2) | (on << 0)\<close>
  split into its two bytes, and then prints one line.
\<close>

theorem medGen_packs_command:
  assumes "(mode, p) \<in> {(''l'', 1), (''m'', 2), (''h'', 4)}"
    and "deadtime \<in> {0..3}" and "on \<in> {0..3}" and "off \<in> {0..3}"
  shows "\<exists>txt. medGen mode deadtime on off tr
     = (Inr (), tr @ [Write_i2c_block_data DAC_addr regMedConfig
                        (nibble (push_bit 8 p OR push_bit 4 deadtime OR push_bit 2 off OR push_bit 0 on)),
                      Print (Text txt)])"
proof -
  from assms(1) consider "mode = ''l''" "p = 1" | "mode = ''m''" "p = 2" | "mode = ''h''" "p = 4"
    by auto
  then show ?thesis
  proof cases
    case 1
    with med_branch_run [OF assms(2,3,4), of 1 medAlarmLP "''Low''" tr] show ?thesis
      by (simp add: medGen_def Let_def medAlarmLP_def)
  next
    case 2
    with med_branch_run [OF assms(2,3,4), of 2 medAlarmMP "''Medium''" tr] show ?thesis
      by (simp add: medGen_def Let_def medAlarmMP_def)
  next
    case 3
    with med_branch_run [OF assms(2,3,4), of 3 medAlarmHP "''High''" tr] show ?thesis
      by (simp add: medGen_def Let_def medAlarmHP_def)
  qed
qed

text \<open>
  The instance of C2 named in the specification: priority low, dead time 2, off 1, on 3
  gives the word \<open>0x127\<close>, sent as \<open>(0x01, 0x27)\<close> to register \<open>0xD2\<close>.
\<close>

theorem medGen_packs_command_witness:
  "(''l'', 1) \<in> {(''l'', 1 :: int), (''m'', 2), (''h'', 4)} \<and> (2 :: int) \<in> {0..3}
   \<and> (3 :: int) \<in> {0..3} \<and> (1 :: int) \<in> {0..3}
   \<and> (\<exists>txt. medGen ''l'' 2 3 1 []
        = (Inr (), [Write_i2c_block_data 0x48 0xD2 [0x01, 0x27], Print (Text txt)]))
   \<and> nibble 0x127 = [0x01, 0x27]"
  using medGen_packs_command [of "''l''" 1 2 3 1 "[]"]
  by (simp add: nibble_def reg_defs)




text \<open>
  C7. Slew index 15 is accepted by \<^verbatim>\<open>slew_rate\<close>, which returns the bare selector
  \<open>0x0F\<close> with no rate. A \<^verbatim>\<open>funcGen\<close> run with slew index 15 (any mode, margins and step
  index) displays no frequency: besides the generator-off write and the delay, its trace
  holds at most the code-step message, so the only command sent is generator-off. In the
  four modes the run ends there, with the \<^verbatim>\<open>TypeError\<close> of subscripting the bare selector.
\<close>

theorem slew_15_no_frequency:
  "slew_rate 15 tr = (Inr (PyInt 0x0F), tr)
   \<and> (\<exists>out. snd (funcGen mode marginH marginL 15 step tr)
          = tr @ [Write_i2c_block_data DAC_addr regTrigger (nibble cmdErase), Sleep (1 / 2)] @ out
        \<and> (out = [] \<or> out = [Print (Text ''Please enter Code Step number from 0 to 7'')]))
   \<and> fst (funcGen ''square'' (Finite 5) (Finite 0) 15 0 tr) = Inl TypeError"
proof -
  let ?pre = "[Write_i2c_block_data DAC_addr regTrigger (nibble cmdErase), Sleep (1 / 2)]"
  let ?msg = "[Print (Text ''Please enter Code Step number from 0 to 7'')]"
  have sl: "\<forall>t. slew_rate 15 t = (Inr (PyInt 0x0F), t @ [])"
    by (simp add: slew_rate_15)
  from code_step_run [of step] obtain cs o2
    where cs: "\<forall>t. code_step step t = (Inr cs, t @ o2)" and o2: "o2 = [] \<or> o2 = ?msg"
    by blast
  have "\<exists>out. snd (funcGen mode marginH marginL 15 step tr) = tr @ ?pre @ out
        \<and> (out = [] \<or> out = ?msg)"
  proof (cases "calcDACCode marginH")
    case (Inl e)
    then show ?thesis by (intro exI [of _ "[]"]) (simp add: funcGen_start_error)
  next
    case mH: (Inr a)
    show ?thesis
    proof (cases "calcDACCode marginL")
      case (Inl e)
      with mH show ?thesis by (intro exI [of _ "[]"]) (simp add: funcGen_start_error)
    next
      case mL: (Inr b)
      show ?thesis
      proof (cases "mode \<in> {''square'', ''triangle'', ''sawH'', ''sawL''}")
        case True
        from funcGen_no_entry [OF mH mL sl cs _ True, of tr] o2 show ?thesis
          by (intro exI [of _ o2]) simp
      next
        case False
        from funcGen_other_mode [OF mH mL sl cs False, of tr] o2 show ?thesis
          by (intro exI [of _ o2]) simp
      qed
    qed
  qed
  moreover have "fst (funcGen ''square'' (Finite 5) (Finite 0) 15 0 tr) = Inl TypeError"
    by (simp add: funcGen_def io_defs funcGenOff_def calcDACCode_5 calcDACCode_0 slew_rate_15
        code_step_ok)
  ultimately show ?thesis by (simp add: slew_rate_15)
qed

text \<open>
  C5 (as stated). For an out-of-range slew or step index, \<^verbatim>\<open>funcGen\<close> would report the
  index before any transport call, so that no register write happens. The runs differ:
  with slew index 16 the generator-off write is issued before the lookup reports, and in
  square mode with step index 8 all five writes are issued and the run returns normally.
\<close>

theorem funcGen_out_of_range_counterexample:
  "funcGen ''square'' (Finite 5) (Finite 0) 16 0 []
     = (Inl TypeError,
        [Write_i2c_block_data 0x48 0xD3 [0x00, 0x00], Sleep (1 / 2),
         Print (Text ''Please enter Slew Rate number from 0 to 15'')])
   \<and> funcGen ''square'' (Finite 5) (Finite 0) 0 8 []
     = (Inr (),
        [Write_i2c_block_data 0x48 0xD3 [0x00, 0x00], Sleep (1 / 2),
         Print (Text ''Please enter Code Step number from 0 to 7''),
         Write_i2c_block_data 0x48 0xD1 [0xC0, 0x00],
         Write_i2c_block_data 0x48 0x25 [0x0F, 0xFC],
         Write_i2c_block_data 0x48 0x26 [0x00, 0x00],
         Write_i2c_block_data 0x48 0xD3 [0x01, 0x00],
         Print (GeneratorLine ''square'' (Finite 5) (Finite 0) 0 None (Finite (78125 / 4)))])
   \<and> Write_i2c_block_data 0x48 0xD3 [0x00, 0x00]
       \<in> set (snd (funcGen ''square'' (Finite 5) (Finite 0) 16 0 []))"
  by (simp add: funcGen_def io_defs funcGenOff_def send_generator_def calcDACCode_5 calcDACCode_0
      slew_rate_out code_step_out code_step_ok slew_rate_values square_frequency_0
      nibble_def reg_defs cmdErase_def cmdSquare_def cmdStartFunc_def)

text \<open>
  C5 (amended). In each of the four modes and for all margins, with a slew index above 15,
  or with a step index above 7 in the triangle and sawtooth modes, \<^verbatim>\<open>funcGen\<close> issues
  the unconditional generator-off write and the delay, and then stops with an error: the
  trace holds no further write, only the messages of the lookups.
\<close>

theorem funcGen_out_of_range:
  assumes "mode \<in> {''square'', ''triangle'', ''sawH'', ''sawL''}"
    and "15 < slew \<or> 7 < step \<and> mode \<noteq> ''square''"
  shows "\<exists>e out. funcGen mode marginH marginL slew step tr
       = (Inl e, tr @ [Write_i2c_block_data DAC_addr regTrigger (nibble cmdErase), Sleep (1 / 2)] @ out)
     \<and> set out \<subseteq> {Print (Text ''Please enter Slew Rate number from 0 to 15''),
                    Print (Text ''Please enter Code Step number from 0 to 7'')}"
proof -
  from slew_rate_run [of slew] obtain sl o1
    where sl: "\<forall>t. slew_rate slew t = (Inr sl, t @ o1)"
      and o1: "o1 = [] \<or> o1 = [Print (Text ''Please enter Slew Rate number from 0 to 15'')]"
      and sl_none: "slew < 0 \<or> 15 < slew \<longrightarrow> sl = PyNone"
    by blast
  from code_step_run [of step] obtain cs o2
    where cs: "\<forall>t. code_step step t = (Inr cs, t @ o2)"
      and o2: "o2 = [] \<or> o2 = [Print (Text ''Please enter Code Step number from 0 to 7'')]"
      and cs_none: "step < 0 \<or> 7 < step \<longrightarrow> cs = PyNone"
    by blast
  from assms(2) sl_none cs_none
  have bad: "item0 sl = Inl TypeError \<or> mode \<noteq> ''square'' \<and> item0 cs = Inl TypeError"
    by auto
  show ?thesis
  proof (cases "calcDACCode marginH")
    case (Inl e)
    then show ?thesis by (intro exI [of _ e] exI [of _ "[]"]) (simp add: funcGen_start_error)
  next
    case mH: (Inr a)
    show ?thesis
    proof (cases "calcDACCode marginL")
      case (Inl e)
      with mH show ?thesis by (intro exI [of _ e] exI [of _ "[]"]) (simp add: funcGen_start_error)
    next
      case mL: (Inr b)
      from funcGen_no_entry [OF mH mL sl cs bad assms(1), of tr] o1 o2 show ?thesis
        by (intro exI [of _ TypeError] exI [of _ "o1 @ o2"]) auto
    qed
  qed
qed

text \<open>An instance of C5 (amended): triangle mode, slew index 3, step index 9.\<close>

theorem funcGen_out_of_range_witness:
  "''triangle'' \<in> {''square'', ''triangle'', ''sawH'', ''sawL''}
   \<and> ((15 :: int) < 3 \<or> (7 :: int) < 9 \<and> ''triangle'' \<noteq> ''square'')
   \<and> (\<exists>e out. funcGen ''triangle'' (Finite 5) (Finite 0) 3 9 []
         = (Inl e, [Write_i2c_block_data 0x48 0xD3 [0x00, 0x00], Sleep (1 / 2)] @ out)
       \<and> set out \<subseteq> {Print (Text ''Please enter Slew Rate number from 0 to 15''),
                      Print (Text ''Please enter Code Step number from 0 to 7'')})"
  using funcGen_out_of_range [of "''triangle''" 3 9 "Finite 5" "Finite 0" "[]"]
  by (simp add: reg_defs nibble_def cmdErase_def)

text \<open>
  C9. For every voltage \<open>v\<close> in \<open>[0, 5]\<close>, converting to a code with \<^verbatim>\<open>calcDACCode\<close>
  and back with the display expression \<^verbatim>\<open>((val >> 2) / 1023) * 5\<close> succeeds and gives a
  value within one LSB-equivalent, \<open>5/1023\<close> volts, of \<open>v\<close>, in binary64 arithmetic. At
  the endpoints the conversion is exact: 0 gives code 0 and 5 gives \<open>1023 << 2 = 4092\<close>,
  and these codes display as 0 and 5.
\<close>

theorem voltage_round_trip:
  "(0 \<le> v \<and> v \<le> 5 \<longrightarrow>
      (\<exists>c w. calcDACCode (Finite v) = Inr c \<and> dac_output c = Inr (Finite w)
         \<and> \<bar>w - v\<bar> \<le> 5 / 1023))
   \<and> calcDACCode (Finite 0) = Inr 0 \<and> calcDACCode (Finite 5) = Inr (push_bit 2 1023)
   \<and> push_bit 2 1023 = (4092 :: int)
   \<and> dac_output 0 = Inr (Finite 0) \<and> dac_output 4092 = Inr (Finite 5)"
proof -
  have "\<exists>c w. calcDACCode (Finite v) = Inr c \<and> dac_output c = Inr (Finite w) \<and> \<bar>w - v\<bar> \<le> 5 / 1023"
    if v: "0 \<le> v" "v \<le> 5"
  proof -
    define n where "n = round_half_even (nearest64 (nearest64 (v * 1023) / 5))"
    define y where "y = nearest64 (of_int n / 1023)"
    define w where "w = nearest64 (y * 5)"
    note c = code_of_volts [OF v, folded n_def]
    note d = dac_output_code [OF c(1,2), folded y_def, folded w_def]
    from abs_chain_back [OF c(3) d(2,3)]
    have "\<bar>w - v\<bar> \<le> 5 / 1023 * (1 / 2 + 1 / 2 ^ 40) + 6 * (1 / 2 ^ 41)" .
    also have "\<dots> \<le> 5 / 1023" by simp
    finally have "\<bar>w - v\<bar> \<le> 5 / 1023" .
    with calcDACCode_volts [OF v, folded n_def] d(1) show ?thesis by blast
  qed
  then show ?thesis
    by (simp add: calcDACCode_0 calcDACCode_5 dac_output_0 dac_output_4092)
qed

text \<open>An instance of C9 at 3.3 volts.\<close>

theorem voltage_round_trip_witness:
  "(0 :: rat) \<le> 33 / 10 \<and> (33 / 10 :: rat) \<le> 5
   \<and> (\<exists>c w. calcDACCode (Finite (33 / 10)) = Inr c \<and> dac_output c = Inr (Finite w)
         \<and> \<bar>w - 33 / 10\<bar> \<le> 5 / 1023)"
  using voltage_round_trip [of "33 / 10"] by simp

text \<open>
  C3. The claim: for every mode and valid inputs \<^verbatim>\<open>funcGen\<close> issues, in this order, the
  generator-off write, the 500 ms delay, the config command, the margin-high code, the
  margin-low code and the start command \<open>0x01 << 8\<close>. Slew index 15 is a valid selector:
  \<^verbatim>\<open>slew_rate\<close> has a branch for it and the command line offers \<open>0 to 15\<close>. There the run
  breaks the claim in each of the four modes: \<^verbatim>\<open>slew_15\<close> is a bare integer, not a list as
  the other fifteen entries, so \<^verbatim>\<open>slew[0]\<close> raises \<^verbatim>\<open>TypeError\<close> after the generator-off
  write and the delay, and none of the config, margin and start writes is issued.
\<close>

theorem funcGen_slew_15_stops:
  "funcGen ''square'' (Finite 5) (Finite 0) 15 0 []
     = (Inl TypeError, [Write_i2c_block_data 0x48 0xD3 [0x00, 0x00], Sleep (1 / 2)])
   \<and> funcGen ''triangle'' (Finite 5) (Finite 0) 15 0 []
     = (Inl TypeError, [Write_i2c_block_data 0x48 0xD3 [0x00, 0x00], Sleep (1 / 2)])
   \<and> funcGen ''sawH'' (Finite 5) (Finite 0) 15 0 []
     = (Inl TypeError, [Write_i2c_block_data 0x48 0xD3 [0x00, 0x00], Sleep (1 / 2)])
   \<and> funcGen ''sawL'' (Finite 5) (Finite 0) 15 0 []
     = (Inl TypeError, [Write_i2c_block_data 0x48 0xD3 [0x00, 0x00], Sleep (1 / 2)])
   \<and> slew_rate 15 [] = (Inr (PyInt 0x0F), [])
   \<and> item0 (PyInt 0x0F :: pyfloat pyobj) = Inl TypeError"
  by (simp add: funcGen_def io_defs funcGenOff_def calcDACCode_5 calcDACCode_0 slew_rate_15
      code_step_ok nibble_def reg_defs cmdErase_def)

text \<open>
  For the slew indices that have a rate, \<open>0..14\<close>, with a step index \<open>0..7\<close> and margins
  \<open>0 \<le> low \<le> high \<le> 5\<close> volts, the run returns normally and its calls are in the claimed
  order: generator-off, delay, config command, margin-high code, margin-low code, start
  command, and then the printed line.
\<close>

lemma funcGen_write_order:
  assumes "mode \<in> {''square'', ''triangle'', ''sawH'', ''sawL''}"
    and "0 \<le> slew" "slew \<le> 14" and "0 \<le> step" "step \<le> 7"
    and "0 \<le> l" "l \<le> h" "h \<le> 5"
  shows "(\<exists>margH margL line.
      calcDACCode (Finite h) = Inr margH \<and> calcDACCode (Finite l) = Inr margL
    \<and> funcGen mode (Finite h) (Finite l) slew step tr
      = (Inr (), tr @
          [Write_i2c_block_data DAC_addr regTrigger (nibble cmdErase),
           Sleep (1 / 2),
           Write_i2c_block_data DAC_addr regConfig (nibble (spec_packed_config mode slew step)),
           Write_i2c_block_data DAC_addr regDAC_MarginH (nibble margH),
           Write_i2c_block_data DAC_addr regDAC_MarginL (nibble margL),
           Write_i2c_block_data DAC_addr regTrigger (nibble (push_bit 8 cmdStartFunc)),
           Print line]))
    \<and> nibble cmdErase = [0x00, 0x00] \<and> nibble (push_bit 8 cmdStartFunc) = [0x01, 0x00]"
proof -
  from funcGen_run [OF assms, of tr] obtain margH margL line
    where "calcDACCode (Finite h) = Inr margH" "calcDACCode (Finite l) = Inr margL"
      "funcGen mode (Finite h) (Finite l) slew step tr
      = (Inr (), tr @
          [Write_i2c_block_data DAC_addr regTrigger (nibble cmdErase),
           Sleep (1 / 2),
           Write_i2c_block_data DAC_addr regConfig (nibble (spec_packed_config mode slew step)),
           Write_i2c_block_data DAC_addr regDAC_MarginH (nibble margH),
           Write_i2c_block_data DAC_addr regDAC_MarginL (nibble margL),
           Write_i2c_block_data DAC_addr regTrigger (nibble (push_bit 8 cmdStartFunc)),
           Print line])"
    by blast
  moreover have "nibble cmdErase = [0x00, 0x00]" "nibble (push_bit 8 cmdStartFunc) = [0x01, 0x00]"
    by (simp_all add: nibble_def cmdErase_def cmdStartFunc_def)
  ultimately show ?thesis by blast
qed

text \<open>An instance: triangle mode, margins 5 and 0 volts, slew index 2, step index 4.\<close>

lemma funcGen_write_order_instance:
  "''triangle'' \<in> {''square'', ''triangle'', ''sawH'', ''sawL''}
   \<and> (0 :: int) \<le> 2 \<and> (2 :: int) \<le> 14 \<and> (0 :: int) \<le> 4 \<and> (4 :: int) \<le> 7
   \<and> (0 :: rat) \<le> 0 \<and> (0 :: rat) \<le> 5 \<and> (5 :: rat) \<le> 5
   \<and> (\<exists>line. funcGen ''triangle'' (Finite 5) (Finite 0) 2 4 []
      = (Inr (),
          [Write_i2c_block_data 0x48 0xD3 [0x00, 0x00],
           Sleep (1 / 2),
           Write_i2c_block_data 0x48 0xD1 [0x08, 0x40],
           Write_i2c_block_data 0x48 0x25 [0x0F, 0xFC],
           Write_i2c_block_data 0x48 0x26 [0x00, 0x00],
           Write_i2c_block_data 0x48 0xD3 [0x01, 0x00],
           Print line]))"
  using funcGen_write_order [of "''triangle''" 2 4 0 5 "[]"]
  by (simp add: calcDACCode_5 calcDACCode_0 reg_defs nibble_def spec_packed_config_def spec_mode_code_def
      cmdTriangle_def cmdErase_def cmdStartFunc_def)

text \<open>
  C4. For each of the four modes, a slew index \<open>0..14\<close> (one that has a rate), a step
  index \<open>0..7\<close> and margins with \<open>0 \<le> low \<le> high \<le> 5\<close> volts, the frequency that \<^verbatim>\<open>funcGen\<close> computes and prints is the value
  of the formula of its mode, \<^const>\<open>spec_waveform_frequency\<close>, at the rate of the slew entry,
  the two raw (left-shifted) margin codes and the LSB count of the step entry. It is a
  finite number within a relative error of \<open>2\<^sup>-\<^sup>5\<^sup>0\<close> of the formula in exact arithmetic,
  \<^const>\<open>spec_exact_frequency\<close>. In particular slew entry 0 has the rate \<open>25.6e-6\<close> and
  gives, in square mode, \<open>1 / (2 * 25.6e-6) = 19531.25\<close> Hz exactly.
\<close>

theorem funcGen_frequency:
  assumes "mode \<in> {''square'', ''triangle'', ''sawH'', ''sawL''}"
    and "0 \<le> slew" "slew \<le> 14" and "0 \<le> step" "step \<le> 7"
    and "0 \<le> l" "l \<le> h" "h \<le> 5"
  shows "(\<exists>margH margL seconds_per_lsb lsb_count f tr'.
      calcDACCode (Finite h) = Inr margH \<and> calcDACCode (Finite l) = Inr margL
    \<and> slew_rate slew tr = (Inr (PyList slew [Finite seconds_per_lsb]), tr)
    \<and> code_step step tr = (Inr (PyList step [lsb_count]), tr)
    \<and> funcGen mode (Finite h) (Finite l) slew step tr
      = (Inr (), tr' @ [Print (GeneratorLine mode (Finite h) (Finite l) slew
                          (if mode = ''square'' then None else Some lsb_count) (Finite f))])
    \<and> spec_waveform_frequency mode (Finite seconds_per_lsb) margH margL lsb_count = Inr (Finite f)
    \<and> \<bar>f - spec_exact_frequency mode seconds_per_lsb margH margL lsb_count\<bar>
        \<le> spec_exact_frequency mode seconds_per_lsb margH margL lsb_count * (1 / 2 ^ 50))
    \<and> slew_rate 0 tr = (Inr (PyList 0 [float_lit (256 / 10 ^ 7)]), tr)
    \<and> spec_waveform_frequency ''square'' (float_lit (256 / 10 ^ 7)) a b k = Inr (Finite (78125 / 4))
    \<and> (78125 / 4 :: rat) = 1953125 / 100"
proof -
  from funcGen_run [OF assms, of tr] obtain margH margL s lsb f
    where f: "calcDACCode (Finite h) = Inr margH" "calcDACCode (Finite l) = Inr margL"
      "\<forall>t. slew_rate slew t = (Inr (PyList slew [Finite s]), t)"
      "\<forall>t. code_step step t = (Inr (PyList step [lsb]), t)"
      "spec_waveform_frequency mode (Finite s) margH margL lsb = Inr (Finite f)"
      "\<bar>f - spec_exact_frequency mode s margH margL lsb\<bar>
        \<le> spec_exact_frequency mode s margH margL lsb * (1 / 2 ^ 50)"
      "funcGen mode (Finite h) (Finite l) slew step tr
      = (Inr (), tr @
          [Write_i2c_block_data DAC_addr regTrigger (nibble cmdErase),
           Sleep (1 / 2),
           Write_i2c_block_data DAC_addr regConfig (nibble (spec_packed_config mode slew step)),
           Write_i2c_block_data DAC_addr regDAC_MarginH (nibble margH),
           Write_i2c_block_data DAC_addr regDAC_MarginL (nibble margL),
           Write_i2c_block_data DAC_addr regTrigger (nibble (push_bit 8 cmdStartFunc)),
           Print (GeneratorLine mode (Finite h) (Finite l) slew
                    (if mode = ''square'' then None else Some lsb) (Finite f))])"
    by blast
  let ?ws = "[Write_i2c_block_data DAC_addr regTrigger (nibble cmdErase),
           Sleep (1 / 2),
           Write_i2c_block_data DAC_addr regConfig (nibble (spec_packed_config mode slew step)),
           Write_i2c_block_data DAC_addr regDAC_MarginH (nibble margH),
           Write_i2c_block_data DAC_addr regDAC_MarginL (nibble margL),
           Write_i2c_block_data DAC_addr regTrigger (nibble (push_bit 8 cmdStartFunc))]"
  have g: "funcGen mode (Finite h) (Finite l) slew step tr
      = (Inr (), (tr @ ?ws) @ [Print (GeneratorLine mode (Finite h) (Finite l) slew
                          (if mode = ''square'' then None else Some lsb) (Finite f))])"
    using f(7) by simp
  from f(3) have sl: "slew_rate slew tr = (Inr (PyList slew [Finite s]), tr)" by blast
  from f(4) have cs: "code_step step tr = (Inr (PyList step [lsb]), tr)" by blast
  from f(1,2) sl cs g f(5,6) have 1: "\<exists>margH margL seconds_per_lsb lsb_count f tr'.
      calcDACCode (Finite h) = Inr margH \<and> calcDACCode (Finite l) = Inr margL
    \<and> slew_rate slew tr = (Inr (PyList slew [Finite seconds_per_lsb]), tr)
    \<and> code_step step tr = (Inr (PyList step [lsb_count]), tr)
    \<and> funcGen mode (Finite h) (Finite l) slew step tr
      = (Inr (), tr' @ [Print (GeneratorLine mode (Finite h) (Finite l) slew
                          (if mode = ''square'' then None else Some lsb_count) (Finite f))])
    \<and> spec_waveform_frequency mode (Finite seconds_per_lsb) margH margL lsb_count = Inr (Finite f)
    \<and> \<bar>f - spec_exact_frequency mode seconds_per_lsb margH margL lsb_count\<bar>
        \<le> spec_exact_frequency mode seconds_per_lsb margH margL lsb_count * (1 / 2 ^ 50)"
    by blast
  have l: "float_lit (256 / 10 ^ 7) = Finite (944473296573929 / 36893488147419103232)"
    by (simp add: fl_eval)
  have 2: "slew_rate 0 tr = (Inr (PyList 0 [float_lit (256 / 10 ^ 7)]), tr)"
    unfolding l by (rule slew_rate_values)
  have 3: "spec_waveform_frequency ''square'' (float_lit (256 / 10 ^ 7)) a b k = Inr (Finite (78125 / 4))"
    unfolding l by (simp add: spec_waveform_frequency_def square_frequency_0)
  have 4: "(78125 / 4 :: rat) = 1953125 / 100" by simp
  from 1 2 3 4 show ?thesis by blast
qed

text \<open>An instance of C4: square mode at slew index 0 prints 19531.25 Hz.\<close>

theorem funcGen_frequency_witness:
  "''square'' \<in> {''square'', ''triangle'', ''sawH'', ''sawL''}
   \<and> (0 :: int) \<le> 0 \<and> (0 :: int) \<le> 14 \<and> (0 :: int) \<le> 7
   \<and> (0 :: rat) \<le> 0 \<and> (0 :: rat) \<le> 5 \<and> (5 :: rat) \<le> 5
   \<and> (\<exists>tr'. funcGen ''square'' (Finite 5) (Finite 0) 0 0 []
      = (Inr (), tr' @ [Print (GeneratorLine ''square'' (Finite 5) (Finite 0) 0 None
                          (Finite (78125 / 4)))]))"
proof -
  have p: "''square'' \<in> {''square'', ''triangle'', ''sawH'', ''sawL''}"
    "(0 :: int) \<le> 0" "(0 :: int) \<le> 14" "(0 :: int) \<le> 0" "(0 :: int) \<le> 7"
    "(0 :: rat) \<le> 0" "(0 :: rat) \<le> 5" "(5 :: rat) \<le> 5"
    by simp_all
  from funcGen_frequency [OF p, where tr = "[]"]
  obtain margH margL s lsb f tr' where
    s: "slew_rate 0 [] = (Inr (PyList 0 [Finite s]), [])"
    and w: "spec_waveform_frequency ''square'' (Finite s) margH margL lsb = Inr (Finite f)"
    and f: "funcGen ''square'' (Finite 5) (Finite 0) 0 0 []
      = (Inr (), tr' @ [Print (GeneratorLine ''square'' (Finite 5) (Finite 0) 0
                          (if ''square'' = ''square'' then None else Some lsb) (Finite f))])"
    by blast
  from s have "s = 944473296573929 / 36893488147419103232"
    by (simp add: slew_rate_values)
  with w have "f = 78125 / 4"
    by (simp add: spec_waveform_frequency_def square_frequency_0)
  with f show ?thesis by auto
qed

end
